theory Spec2Isabelle
  imports Complex_Main "HOL-Library.Char_ord" "HOL-Library.List_Lexorder" "HOL-Library.AList"
begin

section \<open>Temporal cross-validation engine of \<^verbatim>\<open>ph_analysis.py\<close>\<close>

text \<open>
  A shallow embedding of \<^verbatim>\<open>src/analysis/ph_analysis.py\<close>. A floating-point number is
  modelled by the \<^typ>\<open>real\<close> it denotes (no NaN, no infinity); the rounding of the
  arithmetic that computes the evaluation metrics is a parameter, see \<open>float_ops\<close> below.
  The group means of the selector and the products of the polynomial expansion are
  written over the reals; no property below rests on their being exact.
  Python integers are modelled by \<^typ>\<open>int\<close>, strings by \<^typ>\<open>string\<close>, and every exception
  the code can raise is a value of the type \<open>error\<close>: a function that may raise returns
  \<open>error + 'a\<close>, with \<open>Inl\<close> the exception.
\<close>

subsection \<open>Errors\<close>

text \<open>
  The exceptions of Python, pandas and scikit-learn that the modelled paths raise.
  \<open>ConfigurationError\<close> is the name the specification gives to its fatal configuration
  failure; it is listed so that statements can mention it, and no function below
  constructs it, as no line of the source raises an exception of its own.
\<close>

datatype error =
    IndexError
  | KeyError string
  | ValueError
  | CollaboratorError
  | ConfigurationError

definition bind_err :: "error + 'a \<Rightarrow> ('a \<Rightarrow> error + 'b) \<Rightarrow> error + 'b" where
  "bind_err m f = (case m of Inl e \<Rightarrow> Inl e | Inr x \<Rightarrow> f x)"

subsection \<open>Floating-point arithmetic of numpy and pandas\<close>

text \<open>
  The arithmetic on float64 arrays is taken from numpy and pandas. \<open>fl x\<close> is the float64
  that an elementwise operation returns when its exact result is \<open>x\<close>: subtraction,
  squaring and division are correctly rounded operations of IEEE 754, and the absolute
  value of a float64 is a float64. \<open>np_sum\<close> is numpy's sum of an array, which
  scikit-learn's mean is taken from, and \<open>pd_sum\<close> is \<^verbatim>\<open>Series.sum()\<close> of pandas; the order
  in which each of them adds the elements, and so the rounding of the sum, is the
  library's own.
\<close>

record float_ops =
  fl :: "real \<Rightarrow> real"
  np_sum :: "real list \<Rightarrow> real"
  pd_sum :: "real list \<Rightarrow> real"

subsection \<open>Metric Evaluator: \<^verbatim>\<open>evaluate_model\<close>\<close>

text \<open>
  The arrays \<^verbatim>\<open>(a - b) ** 2\<close> and \<^verbatim>\<open>abs(a - b)\<close>: every difference is rounded, and so is every
  square.
\<close>

definition squared_errors :: "float_ops \<Rightarrow> real list \<Rightarrow> real list \<Rightarrow> real list" where
  "squared_errors ops a b = map2 (\<lambda>x y. fl ops ((fl ops (x - y))\<^sup>2)) a b"

definition absolute_errors :: "float_ops \<Rightarrow> real list \<Rightarrow> real list \<Rightarrow> real list" where
  "absolute_errors ops a b = map2 (\<lambda>x y. \<bar>fl ops (x - y)\<bar>) a b"

text \<open>
  \<^verbatim>\<open>metrics.mean_squared_error\<close> and \<^verbatim>\<open>metrics.mean_absolute_error\<close> of scikit-learn:
  both validate their arguments first and raise \<^verbatim>\<open>ValueError\<close> when the two sequences
  differ in length or hold no sample. Otherwise the first returns the mean of
  \<^verbatim>\<open>(y_true - y_pred) ** 2\<close> and the second the mean of \<^verbatim>\<open>abs(y_pred - y_true)\<close>: numpy's sum
  of the array, divided by the number of elements, the quotient rounded.
\<close>

definition mean_squared_error :: "float_ops \<Rightarrow> real list \<Rightarrow> real list \<Rightarrow> error + real" where
  "mean_squared_error ops y_true y_pred =
     (if length y_true \<noteq> length y_pred \<or> y_true = [] then Inl ValueError
      else Inr (fl ops (np_sum ops (squared_errors ops y_true y_pred) / real (length y_true))))"

definition mean_absolute_error :: "float_ops \<Rightarrow> real list \<Rightarrow> real list \<Rightarrow> error + real" where
  "mean_absolute_error ops y_true y_pred =
     (if length y_true \<noteq> length y_pred \<or> y_true = [] then Inl ValueError
      else Inr (fl ops (np_sum ops (absolute_errors ops y_pred y_true) / real (length y_true))))"

record eval_metrics =
  mse :: real
  mae :: real
  rss :: real

text \<open>
  \<^verbatim>\<open>evaluate_model(y_test, predictions, verbose)\<close>, lines 408 to 425. Printing is not
  modelled. \<^verbatim>\<open>rss = ((predictions - y_test) ** 2).sum()\<close> is the sum that pandas takes of the
  squared residuals; it is computed from the residuals, not from \<^verbatim>\<open>mse\<close>.
\<close>

definition evaluate_model :: "float_ops \<Rightarrow> real list \<Rightarrow> real list \<Rightarrow> error + eval_metrics" where
  "evaluate_model ops y_test predictions =
     bind_err (mean_squared_error ops y_test predictions) (\<lambda>mse_v.
     bind_err (mean_absolute_error ops y_test predictions) (\<lambda>mae_v.
       Inr \<lparr>mse = mse_v, mae = mae_v,
            rss = pd_sum ops (squared_errors ops predictions y_test)\<rparr>))"

subsection \<open>Rendering integers as Python's \<^verbatim>\<open>str\<close> does\<close>

definition digit_char :: "nat \<Rightarrow> char" where
  "digit_char n = ''0123456789'' ! (n mod 10)"

function str_nat :: "nat \<Rightarrow> string" where
  "str_nat n = (if n < 10 then [digit_char n] else str_nat (n div 10) @ [digit_char n])"
  by pat_completeness auto
termination
  by (relation "measure (\<lambda>n. n)") auto

definition str_int :: "int \<Rightarrow> string" where
  "str_int i = (if i < 0 then CHR ''-'' # str_nat (nat (- i)) else str_nat (nat i))"

subsection \<open>Feature Importance Extractor: the labels of \<^verbatim>\<open>get_feature_importance\<close>\<close>

text \<open>
  Lines 522 to 528 of \<^verbatim>\<open>get_feature_importance\<close>: the list \<^verbatim>\<open>feature_list\<close> the function
  builds before it fits the model. \<^verbatim>\<open>degree\<close> defaults to \<^verbatim>\<open>None\<close>; \<^verbatim>\<open>None\<close> and \<open>0\<close> are
  falsy. The loop \<^verbatim>\<open>for deg in range(1, degree+1)\<close> extends the list by one label per
  feature on every pass.
\<close>

definition truthy :: "int option \<Rightarrow> bool" where
  "truthy d = (case d of None \<Rightarrow> False | Some k \<Rightarrow> k \<noteq> 0)"

definition format_label :: "string \<Rightarrow> int \<Rightarrow> string" where
  "format_label feat deg = feat @ ''^'' @ str_int deg"

fun extend_labels :: "string list \<Rightarrow> string list \<Rightarrow> int list \<Rightarrow> string list" where
  "extend_labels features feature_list [] = feature_list"
| "extend_labels features feature_list (deg # degs) =
     extend_labels features (feature_list @ map (\<lambda>feat. format_label feat deg) features) degs"

definition feature_labels :: "string list \<Rightarrow> int option \<Rightarrow> string list" where
  "feature_labels features degree =
     (if truthy degree then extend_labels features [''1''] [1..the degree]
      else extend_labels features [] [1..1])"

subsection \<open>Observations and data frames\<close>

text \<open>
  A pandas \<^verbatim>\<open>Timestamp\<close>; the code reads only its ISO week number (\<^verbatim>\<open>.week\<close>,
  \<^verbatim>\<open>.dt.week\<close>).
\<close>

datatype timestamp = Timestamp (week: int)

text \<open>
  One row of the prepared dataset. The columns the source names outright are fields;
  every other numeric column (the population and policy features, the one-hot state
  indicators) is an entry of \<open>other_cols\<close>, in column order. The type of the date
  column is a parameter: it is \<^typ>\<open>timestamp\<close> in the prepared dataset and a number in
  the frame \<^verbatim>\<open>simulate\<close> builds, where \<^verbatim>\<open>x.week + 1\<close> replaces the date. A frame is
  the list of its rows in index order; all rows of a frame carry the same columns.
\<close>

record 'd obs =
  as_of_date :: 'd
  total_prisoner_cases :: real
  lag_prisoner_cases :: real
  new_prisoner_cases :: real
  other_cols :: "(string \<times> real) list"

type_synonym frame = "timestamp obs list"

definition dt_week :: "timestamp obs \<Rightarrow> int" where
  "dt_week r = week (as_of_date r)"

definition get_col :: "string \<Rightarrow> 'd obs \<Rightarrow> real option" where
  "get_col c r =
     (if c = ''total_prisoner_cases'' then Some (total_prisoner_cases r)
      else if c = ''lag_prisoner_cases'' then Some (lag_prisoner_cases r)
      else if c = ''new_prisoner_cases'' then Some (new_prisoner_cases r)
      else map_of (other_cols r) c)"

definition set_num_col :: "string \<Rightarrow> real \<Rightarrow> 'd obs \<Rightarrow> 'd obs" where
  "set_num_col c v r =
     (if c = ''total_prisoner_cases'' then r\<lparr>total_prisoner_cases := v\<rparr>
      else if c = ''lag_prisoner_cases'' then r\<lparr>lag_prisoner_cases := v\<rparr>
      else if c = ''new_prisoner_cases'' then r\<lparr>new_prisoner_cases := v\<rparr>
      else r\<lparr>other_cols := AList.update c v (other_cols r)\<rparr>)"

text \<open>\<^verbatim>\<open>test[col] = val\<close> on the simulated frame, whose date column holds numbers.\<close>

definition set_col :: "string \<Rightarrow> real \<Rightarrow> real obs \<Rightarrow> real obs" where
  "set_col c v r = (if c = ''as_of_date'' then r\<lparr>as_of_date := v\<rparr> else set_num_col c v r)"

text \<open>\<^verbatim>\<open>test[col]\<close> read from a row of the simulated frame.\<close>

definition get_sim_col :: "string \<Rightarrow> real obs \<Rightarrow> real option" where
  "get_sim_col c r = (if c = ''as_of_date'' then Some (as_of_date r) else get_col c r)"

definition frame_columns :: "'d obs list \<Rightarrow> string list" where
  "frame_columns df =
     (case df of
        [] \<Rightarrow> []
      | r # _ \<Rightarrow> [''as_of_date'', ''total_prisoner_cases'', ''lag_prisoner_cases'',
                  ''new_prisoner_cases''] @ map fst (other_cols r))"

text \<open>\<^verbatim>\<open>df.loc[:, cols]\<close> and \<^verbatim>\<open>df[cols]\<close>: a missing column raises \<^verbatim>\<open>KeyError\<close>.\<close>

fun select_row :: "string list \<Rightarrow> 'd obs \<Rightarrow> error + real list" where
  "select_row [] r = Inr []"
| "select_row (c # cs) r =
     (case get_col c r of
        None \<Rightarrow> Inl (KeyError c)
      | Some v \<Rightarrow> bind_err (select_row cs r) (\<lambda>vs. Inr (v # vs)))"

fun loc_cols :: "string list \<Rightarrow> 'd obs list \<Rightarrow> error + real list list" where
  "loc_cols cs [] = Inr []"
| "loc_cols cs (r # rs) =
     bind_err (select_row cs r) (\<lambda>v. bind_err (loc_cols cs rs) (\<lambda>vs. Inr (v # vs)))"

text \<open>Python's \<^verbatim>\<open>sub in s\<close> on strings.\<close>

fun contains_str :: "string \<Rightarrow> string \<Rightarrow> bool" where
  "contains_str sub [] = (sub = [])"
| "contains_str sub (c # cs) = (take (length sub) (c # cs) = sub \<or> contains_str sub cs)"

subsection \<open>Configuration constants\<close>

definition norm_features :: "string list" where
  "norm_features = [''pop_2020'', ''pop_2018'', ''capacity'', ''pct_occup'',
                    ''lag_prisoner_cases'', ''new_prisoner_cases'']"

definition policy_features :: "string list" where
  "policy_features = [''no_visits'', ''lawyer_access'', ''phone_access'', ''video_access'',
                      ''no_volunteers'', ''limiting_movement'', ''screening'',
                      ''healthcare_support'']"

definition FEATURES :: "(string \<times> string list) list" where
  "FEATURES =
     [(''naive'', [''lag_prisoner_cases'', ''new_prisoner_cases'']),
      (''population'', norm_features),
      (''policy'', policy_features @ [''lag_prisoner_cases'', ''new_prisoner_cases'']),
      (''total'', [''pop_2020'', ''pop_2018'', ''capacity'', ''pct_occup''] @ policy_features @
                  [''lag_prisoner_cases'', ''new_prisoner_cases''])]"

definition DEGREES :: "nat list" where
  "DEGREES = [1, 2, 3]"

subsection \<open>Temporal Splitter: \<^verbatim>\<open>time_cv_split\<close>\<close>

record fold =
  test_week :: int
  train :: frame
  test :: frame

text \<open>
  \<^verbatim>\<open>time_cv_split(train)\<close>, lines 85 to 101. \<^verbatim>\<open>.iloc[0]\<close> and \<^verbatim>\<open>.iloc[-1]\<close> raise
  \<^verbatim>\<open>IndexError\<close> on a frame without rows; \<^verbatim>\<open>range(earliest + 1, latest)\<close> is the list
  \<open>[earliest + 1 .. latest - 1]\<close>.
\<close>

definition time_cv_split :: "frame \<Rightarrow> error + fold list" where
  "time_cv_split df =
     (case df of
        [] \<Rightarrow> Inl IndexError
      | _ \<Rightarrow>
         (let earliest = dt_week (hd df);
              latest = dt_week (last df)
          in Inr (map (\<lambda>wk.
                    \<lparr>test_week = wk + 1,
                     train = filter (\<lambda>r. dt_week r \<le> wk \<and> dt_week r \<noteq> earliest) df,
                     test = filter (\<lambda>r. dt_week r = wk + 1) df\<rparr>)
                  [earliest + 1 .. latest - 1])))"

subsection \<open>Normalization and feature assembly: \<^verbatim>\<open>normalize_prep_eval_data\<close>\<close>

text \<open>
  \<^verbatim>\<open>clean_data.normalize\<close> belongs to the module \<^verbatim>\<open>clean_data\<close> of the repository, whose
  source is not at hand, so it is a parameter of every function that calls it: given the
  selected columns as a matrix and, optionally, a fitted scaler, it returns the
  normalized matrix and the scaler, or \<open>None\<close> when it raises. It is taken to keep the
  rows and columns of its input, as the merge on the index presumes.
\<close>

type_synonym 's normalizer = "real list list \<Rightarrow> 's option \<Rightarrow> (real list list \<times> 's) option"

definition drop_num_cols :: "string list \<Rightarrow> 'd obs \<Rightarrow> 'd obs" where
  "drop_num_cols cs r = r\<lparr>other_cols := filter (\<lambda>kv. fst kv \<notin> set cs) (other_cols r)\<rparr>"

definition merge_cols :: "string list \<Rightarrow> real list \<Rightarrow> 'd obs \<Rightarrow> 'd obs" where
  "merge_cols cs vs r = foldl (\<lambda>r' cv. set_num_col (fst cv) (snd cv) r') r (zip cs vs)"

text \<open>
  \<^verbatim>\<open>df.drop(columns=norm_features)\<close> followed by the merge with the normalized block on the
  index: the normalized columns replace the dropped ones and come last.
\<close>

definition drop_and_merge :: "string list \<Rightarrow> 'd obs list \<Rightarrow> real list list \<Rightarrow> 'd obs list" where
  "drop_and_merge cs df normed =
     map (\<lambda>rv. merge_cols cs (snd rv) (drop_num_cols cs (fst rv))) (zip df normed)"

text \<open>
  Lines 117 to 124 of \<^verbatim>\<open>normalize_prep_eval_data\<close>, and the same statements at lines 262
  to 269 of \<^verbatim>\<open>cross_validate\<close>: the scaler is fitted on the training block and applied
  to the test block.
\<close>

definition normalize_and_merge ::
  "'s normalizer \<Rightarrow> 'a obs list \<Rightarrow> 'b obs list \<Rightarrow> error + ('a obs list \<times> 'b obs list)" where
  "normalize_and_merge normalize_fn train_df test_df =
     bind_err (loc_cols norm_features train_df) (\<lambda>train_sel.
       case normalize_fn train_sel None of
         None \<Rightarrow> Inl CollaboratorError
       | Some (train_norm, scaler) \<Rightarrow>
           bind_err (loc_cols norm_features test_df) (\<lambda>test_sel.
             case normalize_fn test_sel (Some scaler) of
               None \<Rightarrow> Inl CollaboratorError
             | Some (test_norm, _) \<Rightarrow>
                 Inr (drop_and_merge norm_features train_df train_norm,
                      drop_and_merge norm_features test_df test_norm)))"

text \<open>
  A design matrix is either a NumPy array or a pandas frame; a frame may keep the date
  column beside the numeric features.
\<close>

datatype 'd design = NdArray "real list list" | DataFrame "'d list option" "real list list"

text \<open>
  \<^verbatim>\<open>normalize_prep_eval_data(train, test, feat_type, include_date)\<close>, lines 115 to 141.
  \<^verbatim>\<open>FEATURES[feat_type]\<close> raises \<^verbatim>\<open>KeyError\<close> for a name that is not a key of \<^verbatim>\<open>FEATURES\<close>;
  the statement stands after the normalization and after \<^verbatim>\<open>train["as_of_date"].iloc[0]\<close>,
  which raises \<^verbatim>\<open>IndexError\<close> on a training frame without rows.
\<close>

definition normalize_prep_eval_data ::
  "'s normalizer \<Rightarrow> frame \<Rightarrow> 'd obs list \<Rightarrow> string \<Rightarrow> bool \<Rightarrow>
     error + (timestamp design \<times> real list \<times> 'd design \<times> real list)" where
  "normalize_prep_eval_data normalize_fn train_df test_df feat_type include_date =
     bind_err (normalize_and_merge normalize_fn train_df test_df) (\<lambda>(train1, test1).
       case train1 of
         [] \<Rightarrow> Inl IndexError
       | r0 # _ \<Rightarrow>
           (let earliest = dt_week r0;
                train2 = filter (\<lambda>r. dt_week r \<noteq> earliest) train1;
                states = filter (contains_str ''state'') (frame_columns train2)
            in case map_of FEATURES feat_type of
                 None \<Rightarrow> Inl (KeyError feat_type)
               | Some feats \<Rightarrow>
                   (let feature_set = feats @ states
                    in bind_err (loc_cols feature_set train2) (\<lambda>X_train.
                       bind_err (loc_cols feature_set test1) (\<lambda>X_test.
                         Inr (DataFrame (if include_date then Some (map as_of_date train2) else None)
                                        X_train,
                              map total_prisoner_cases train2,
                              DataFrame (if include_date then Some (map as_of_date test1) else None)
                                        X_test,
                              map total_prisoner_cases test1))))))"

subsection \<open>Forward Simulator: the simulated frame of \<^verbatim>\<open>simulate\<close>\<close>

text \<open>
  Lines 158 to 173 of \<^verbatim>\<open>simulate(dataset, feat_dict, feat_type, best_model)\<close>: the dataset
  without its earliest week, and the frame \<^verbatim>\<open>test\<close> after the overrides of \<^verbatim>\<open>feat_dict\<close>
  have been written. \<^verbatim>\<open>feat_dict\<close> is the list of its items in iteration order.
\<close>

definition relabel_date :: "timestamp obs \<Rightarrow> real obs" where
  "relabel_date r =
     \<lparr>as_of_date = real_of_int (week (as_of_date r) + 1),
      total_prisoner_cases = total_prisoner_cases r,
      lag_prisoner_cases = lag_prisoner_cases r,
      new_prisoner_cases = new_prisoner_cases r,
      other_cols = other_cols r\<rparr>"

fun apply_overrides :: "(string \<times> real) list \<Rightarrow> real obs list \<Rightarrow> real obs list" where
  "apply_overrides [] test_df = test_df"
| "apply_overrides ((col, val) # items) test_df =
     apply_overrides items (map (set_col col val) test_df)"

definition simulated_test :: "frame \<Rightarrow> (string \<times> real) list \<Rightarrow> error + (frame \<times> real obs list)" where
  "simulated_test dataset feat_dict =
     (case dataset of
        [] \<Rightarrow> Inl IndexError
      | d0 # _ \<Rightarrow>
          (let earliest = dt_week d0;
               dataset1 = filter (\<lambda>r. dt_week r \<noteq> earliest) dataset
           in case dataset1 of
                [] \<Rightarrow> Inl IndexError
              | _ \<Rightarrow>
                  (let latest_week = dt_week (last dataset1);
                       test0 = filter (\<lambda>r. dt_week r = latest_week) dataset1;
                       test1 = map relabel_date test0;
                       test2 = map (\<lambda>r. r\<lparr>lag_prisoner_cases := total_prisoner_cases r\<rparr>) test1;
                       test3 = map (\<lambda>r. r\<lparr>total_prisoner_cases :=
                                            total_prisoner_cases r + new_prisoner_cases r\<rparr>) test2
                   in Inr (dataset1, apply_overrides feat_dict test3))))"

subsection \<open>Evaluation table\<close>

text \<open>Values of hyperparameters, and a hyperparameter dictionary as the list of its items.\<close>

datatype pyval = PBool bool | PInt int | PFloat real | PStr string | PNone

type_synonym params = "(string \<times> pyval) list"

text \<open>
  The dictionary \<^verbatim>\<open>eval_metrics\<close> after \<^verbatim>\<open>build_classifier\<close> has added its three entries;
  the same with the two columns \<^verbatim>\<open>run_grid_search\<close> adds; a row of the frame
  \<^verbatim>\<open>model_compare\<close> that \<^verbatim>\<open>run_grid_search\<close> returns, whose index is the key of
  \<^verbatim>\<open>model_perf\<close>; and a row of the frame \<^verbatim>\<open>cv_df\<close> that \<^verbatim>\<open>cross_validate\<close> returns. The
  column \<^verbatim>\<open>model\<close> of \<^verbatim>\<open>cv_df\<close> holds the label; it is \<open>None\<close> where pandas holds NaN (a
  key in which the pattern of \<^verbatim>\<open>str.extract\<close> finds nothing). The column \<^verbatim>\<open>degree\<close> is
  written as \<^verbatim>\<open>str(degree)\<close> and cast back to \<^verbatim>\<open>int\<close>; it is kept as the number.
\<close>

record perf = eval_metrics +
  run_time :: real
  parameters :: params
  model_type :: string

record scored = perf +
  test_week_col :: int
  degree :: nat

record grid_row = scored +
  index_key :: string

record cv_row = scored +
  model :: "string option"

subsection \<open>Best-Model Selector: \<^verbatim>\<open>find_best_model\<close> and lines 212 to 224 of \<^verbatim>\<open>run_temporal_cv\<close>\<close>

text \<open>
  A row of \<^verbatim>\<open>by_model_means\<close> after \<^verbatim>\<open>reset_index\<close>: the group's label and the means of
  the three metrics (the means of the other numeric columns are never read).
\<close>

record mean_row = eval_metrics +
  model_label :: string

definition mean_of :: "(cv_row \<Rightarrow> real) \<Rightarrow> cv_row list \<Rightarrow> real" where
  "mean_of f rs = sum_list (map f rs) / real (length rs)"

text \<open>\<^verbatim>\<open>groupby\<close> sorts the group keys; Python compares strings lexicographically.\<close>

definition group_keys :: "string list \<Rightarrow> string list" where
  "group_keys ks = sort (remdups ks)"

text \<open>\<^verbatim>\<open>cv_results.groupby('model').mean()\<close>; rows whose key is NaN belong to no group.\<close>

definition by_model_means :: "cv_row list \<Rightarrow> mean_row list" where
  "by_model_means cv_results =
     map (\<lambda>k. let g = filter (\<lambda>r. model r = Some k) cv_results
              in \<lparr>mse = mean_of mse g, mae = mean_of mae g, rss = mean_of rss g,
                  model_label = k\<rparr>)
         (group_keys (List.map_filter model cv_results))"

text \<open>
  The rows whose mean equals the column's minimum. On a frame without rows the
  comparison selects nothing, whatever \<^verbatim>\<open>min\<close> returns.
\<close>

definition best_by :: "(mean_row \<Rightarrow> real) \<Rightarrow> mean_row list \<Rightarrow> mean_row list" where
  "best_by f means = filter (\<lambda>m. f m = min_list (map f means)) means"

definition find_best_model :: "cv_row list \<Rightarrow> mean_row list" where
  "find_best_model cv_results =
     (let means = by_model_means cv_results;
          best_mse = best_by mse means;
          best_mae = best_by mae means;
          best_rss = best_by rss means
      in best_mse @ best_mae @ best_rss)"

text \<open>
  \<^verbatim>\<open>best_from_feat.groupby('model').size()\<close> after \<^verbatim>\<open>reset_index\<close>: the rows are
  (index label, model, count), the index labels counting from 0 in the order of the
  sorted keys.
\<close>

definition group_sizes :: "mean_row list \<Rightarrow> (nat \<times> string \<times> nat) list" where
  "group_sizes best_from_feat =
     (let labels = map model_label best_from_feat
      in map (\<lambda>ik. (fst ik, snd ik, count_list labels (snd ik)))
             (enumerate 0 (group_keys labels)))"

text \<open>
  \<^verbatim>\<open>sort_values('count', ascending=False)\<close>: the rows move, each keeping its index label.
\<close>

definition sort_by_count_desc :: "(nat \<times> string \<times> nat) list \<Rightarrow> (nat \<times> string \<times> nat) list" where
  "sort_by_count_desc best_type = sort_key (\<lambda>ikc. - int (snd (snd ikc))) best_type"

text \<open>\<^verbatim>\<open>best_type.loc[0, 'model']\<close>: the row whose index label is 0.\<close>

definition loc_0_model :: "(nat \<times> string \<times> nat) list \<Rightarrow> error + string" where
  "loc_0_model best_type =
     (case filter (\<lambda>ikc. fst ikc = 0) best_type of
        [] \<Rightarrow> Inl (KeyError ''0'')
      | ikc # _ \<Rightarrow> Inr (fst (snd ikc)))"

text \<open>\<^verbatim>\<open>s.split()[0]\<close>: the first run of characters that are not ASCII whitespace.\<close>

definition is_space :: "char \<Rightarrow> bool" where
  "is_space c = (c \<in> set [CHR '' '', CHR 0x09, CHR 0x0A, CHR 0x0B, CHR 0x0C, CHR 0x0D,
                           CHR 0x1C, CHR 0x1D, CHR 0x1E, CHR 0x1F])"

definition first_token :: "string \<Rightarrow> error + string" where
  "first_token s =
     (case dropWhile is_space s of
        [] \<Rightarrow> Inl IndexError
      | t \<Rightarrow> Inr (takeWhile (\<lambda>c. \<not> is_space c) t))"

text \<open>The dictionary \<^verbatim>\<open>params\<close> that \<^verbatim>\<open>run_temporal_cv\<close> stores per feature set.\<close>

record best_config =
  cfg_degree :: nat
  cfg_params :: params
  cfg_model_type :: string

definition select_best :: "cv_row list \<Rightarrow> error + best_config" where
  "select_best cv_df =
     (let best_from_feat = find_best_model cv_df;
          best_type = sort_by_count_desc (group_sizes best_from_feat)
      in bind_err (loc_0_model best_type) (\<lambda>best_single.
           case filter (\<lambda>r. model r = Some best_single) cv_df of
             [] \<Rightarrow> Inl IndexError
           | best_model # _ \<Rightarrow>
               bind_err (first_token best_single) (\<lambda>family.
                 Inr \<lparr>cfg_degree = degree best_model,
                      cfg_params = parameters best_model,
                      cfg_model_type = family\<rparr>)))"

subsection \<open>The specification's words about the selector\<close>

text \<open>
  The three notions below follow the specification, not the source; the properties
  compare the source's selector with them. \<open>group_mean f t k\<close> is the mean of the metric
  \<open>f\<close> over the rows of the table \<open>t\<close> labelled \<open>k\<close>; \<open>is_best f t k\<close> says that the label
  \<open>k\<close> of \<open>t\<close> achieves the minimum mean of \<open>f\<close>; \<open>family_tally pool family\<close> counts the
  entries of the pool whose label starts with the model family \<open>family\<close>.
\<close>

definition group_mean :: "(cv_row \<Rightarrow> real) \<Rightarrow> cv_row list \<Rightarrow> string \<Rightarrow> real" where
  "group_mean f t k = mean_of f (filter (\<lambda>r. model r = Some k) t)"

definition is_best :: "(cv_row \<Rightarrow> real) \<Rightarrow> cv_row list \<Rightarrow> string \<Rightarrow> bool" where
  "is_best f t k =
     (k \<in> set (List.map_filter model t) \<and>
      (\<forall>k' \<in> set (List.map_filter model t). group_mean f t k \<le> group_mean f t k'))"

definition family_tally :: "mean_row list \<Rightarrow> string \<Rightarrow> nat" where
  "family_tally pool family =
     length (filter (\<lambda>m. first_token (model_label m) = Inr family) pool)"

subsection \<open>Model registry, hyperparameter grid and the collaborators\<close>

text \<open>
  A scikit-learn estimator object: the name of its class and its parameters as
  \<^verbatim>\<open>get_params()\<close> reports them. \<^verbatim>\<open>set_params(**params)\<close> assigns the given parameters one
  by one, leaves every other parameter as it is, and raises \<^verbatim>\<open>ValueError\<close> at a name the
  estimator does not have (nested names with \<^verbatim>\<open>__\<close> are not modelled).
\<close>

record estimator =
  est_class :: string
  est_params :: params

fun set_params :: "estimator \<Rightarrow> params \<Rightarrow> error + estimator" where
  "set_params m [] = Inr m"
| "set_params m ((k, v) # kvs) =
     (if k \<in> set (map fst (est_params m))
      then set_params (m\<lparr>est_params := AList.update k v (est_params m)\<rparr>) kvs
      else Inl ValueError)"

text \<open>
  \<^verbatim>\<open>GRID\<close>, lines 41 to 47. The registry \<^verbatim>\<open>MODELS\<close> holds one shared estimator object per
  family, built by scikit-learn's constructors; it is the component \<open>registry\<close> of the
  state below, a dictionary from the family name to the object in its current
  configuration.
\<close>

definition alphas :: "pyval list" where
  "alphas = [PFloat (1 / 1000), PFloat (1 / 100), PFloat (1 / 10), PInt 1, PInt 10, PInt 100,
             PInt 1000, PInt 10000]"

definition GRID :: "(string \<times> params list) list" where
  "GRID =
     [(''LinearRegression'', [[(''normalize'', PBool False), (''fit_intercept'', PBool True)]]),
      (''Lasso'', map (\<lambda>x. [(''alpha'', x), (''random_state'', PInt 0)]) alphas),
      (''Ridge'', map (\<lambda>x. [(''alpha'', x), (''random_state'', PInt 0)]) alphas),
      (''ElasticNet'', map (\<lambda>x. [(''alpha'', x), (''random_state'', PInt 0)]) alphas)]"

text \<open>
  What the modelled functions take from other modules and libraries. \<open>normalize_lib\<close>
  is \<^verbatim>\<open>clean_data.normalize\<close>. \<open>fit_predict_lib\<close> is \<^verbatim>\<open>model.fit(X_train, y_train)\<close> followed
  by \<^verbatim>\<open>model.predict(X_test)\<close> on a configured estimator: a function of the configuration
  and the data (a family without randomness), \<open>Inl\<close> when fitting or predicting raises.
  \<open>str_model\<close> is \<^verbatim>\<open>str\<close> on an estimator, \<open>str_params\<close> is \<^verbatim>\<open>str\<close> on a parameter
  dictionary, \<open>now n\<close> is the reading of \<^verbatim>\<open>datetime.datetime.now()\<close> at the \<open>n\<close>-th call,
  in seconds, and \<open>numerics\<close> is the floating-point arithmetic.
\<close>

record 's library =
  normalize_lib :: "'s normalizer"
  fit_predict_lib :: "estimator \<Rightarrow> real list list \<Rightarrow> real list \<Rightarrow> real list list \<Rightarrow> error + real list"
  str_model :: "estimator \<Rightarrow> string"
  str_params :: "params \<Rightarrow> string"
  now :: "nat \<Rightarrow> real"
  numerics :: float_ops

text \<open>The mutable state: the shared estimator objects and the number of clock readings.\<close>

record run_state =
  registry :: "(string \<times> estimator) list"
  ticks :: nat

text \<open>A loop over a list whose body may raise: the first exception ends the loop.\<close>

fun for_each :: "('a \<Rightarrow> 's \<Rightarrow> error + 's) \<Rightarrow> 'a list \<Rightarrow> 's \<Rightarrow> error + 's" where
  "for_each body [] s = Inr s"
| "for_each body (x # xs) s = bind_err (body x s) (for_each body xs)"

subsection \<open>Model Trainer: \<^verbatim>\<open>fit_and_predict\<close>\<close>

fun design_values :: "'d design \<Rightarrow> real list list" where
  "design_values (NdArray m) = m"
| "design_values (DataFrame dates m) = m"

text \<open>
  \<^verbatim>\<open>fit_and_predict(X_train, y_train, X_test, model_type, param)\<close>, lines 599 to 610. The
  estimator object is passed by its key in the registry; the function returns the
  predictions, the object as configured, and the state in which the registry holds the
  object so configured. The date column of a frame is dropped, so the estimator sees
  the numeric values of either kind of design matrix.
\<close>

definition fit_and_predict ::
  "'s library \<Rightarrow> 'd design \<Rightarrow> real list \<Rightarrow> 'e design \<Rightarrow> string \<Rightarrow> params \<Rightarrow> run_state \<Rightarrow>
     error + (real list \<times> estimator \<times> run_state)" where
  "fit_and_predict lib X_train y_train X_test model_key param st =
     (case map_of (registry st) model_key of
        None \<Rightarrow> Inl (KeyError model_key)
      | Some shared \<Rightarrow>
          bind_err (set_params shared param) (\<lambda>configured.
          bind_err (fit_predict_lib lib configured (design_values X_train) y_train
                      (design_values X_test)) (\<lambda>predictions.
            Inr (predictions, configured,
                 st\<lparr>registry := AList.update model_key configured (registry st)\<rparr>))))"

subsection \<open>Grid Search Runner: \<^verbatim>\<open>build_classifier\<close> and \<^verbatim>\<open>run_grid_search\<close>\<close>

text \<open>
  \<^verbatim>\<open>build_classifier\<close>, lines 369 to 391: the state and the dictionary \<^verbatim>\<open>model_perf\<close> go in
  and come out. Assigning to a key that the dictionary holds replaces the value and
  keeps the key's place; a new key goes last.
\<close>

definition build_classifier ::
  "'s library \<Rightarrow> 'd design \<Rightarrow> real list \<Rightarrow> 'e design \<Rightarrow> real list \<Rightarrow> string \<Rightarrow> params \<Rightarrow>
     run_state \<times> (string \<times> perf) list \<Rightarrow> error + (run_state \<times> (string \<times> perf) list)" where
  "build_classifier lib X_train y_train X_test y_test model_key param sp =
     (let st = fst sp;
          model_perf = snd sp;
          start = now lib (ticks st)
      in bind_err (fit_and_predict lib X_train y_train X_test model_key param
                     (st\<lparr>ticks := ticks st + 1\<rparr>)) (\<lambda>(predictions, configured, st1).
         bind_err (evaluate_model (numerics lib) y_test predictions) (\<lambda>eval_metrics.
           (let stop = now lib (ticks st1);
                elapsed = stop - start;
                entry = \<lparr>mse = mse eval_metrics, mae = mae eval_metrics, rss = rss eval_metrics,
                         run_time = elapsed, parameters = param,
                         model_type = str_model lib configured\<rparr>
            in Inr (st1\<lparr>ticks := ticks st1 + 1\<rparr>,
                    AList.update (str_model lib configured) entry model_perf)))))"

text \<open>
  \<^verbatim>\<open>run_grid_search\<close>, lines 322 to 340, with \<^verbatim>\<open>models\<close> the registry of the state.
  \<^verbatim>\<open>grid[model_key]\<close> raises \<^verbatim>\<open>KeyError\<close> for a family without an entry in the grid.
\<close>

definition run_grid_search ::
  "'s library \<Rightarrow> 'd design \<Rightarrow> real list \<Rightarrow> 'e design \<Rightarrow> real list \<Rightarrow> int \<Rightarrow> nat \<Rightarrow>
     (string \<times> params list) list \<Rightarrow> run_state \<Rightarrow> error + (grid_row list \<times> run_state)" where
  "run_grid_search lib X_train y_train X_test y_test test_wk deg grid st =
     bind_err
       (for_each
          (\<lambda>model_key sp.
             case map_of grid model_key of
               None \<Rightarrow> Inl (KeyError model_key)
             | Some param_list \<Rightarrow>
                 for_each (build_classifier lib X_train y_train X_test y_test model_key)
                   param_list sp)
          (map fst (registry st)) (st, []))
       (\<lambda>(st1, model_perf).
          Inr (map (\<lambda>kp. \<lparr>mse = mse (snd kp), mae = mae (snd kp), rss = rss (snd kp),
                           run_time = run_time (snd kp), parameters = parameters (snd kp),
                           model_type = model_type (snd kp),
                           test_week_col = test_wk, degree = deg, index_key = fst kp\<rparr>)
                 model_perf,
               st1))"

subsection \<open>Polynomial expansion: scikit-learn's \<^verbatim>\<open>PolynomialFeatures\<close>\<close>

text \<open>
  \<^verbatim>\<open>itertools.combinations_with_replacement\<close> of the given items, and the expansion of
  one row: the products of the entries over all combinations of 0 to \<open>d\<close> column indices,
  the constant 1 first.
\<close>

fun combinations_with_replacement :: "nat list \<Rightarrow> nat \<Rightarrow> nat list list" where
  "combinations_with_replacement xs 0 = [[]]"
| "combinations_with_replacement [] (Suc k) = []"
| "combinations_with_replacement (x # xs) (Suc k) =
     map ((#) x) (combinations_with_replacement (x # xs) k) @
     combinations_with_replacement xs (Suc k)"

definition expand_row :: "nat \<Rightarrow> real list \<Rightarrow> real list" where
  "expand_row d r =
     concat (map (\<lambda>k. map (\<lambda>comb. prod_list (map (\<lambda>i. r ! i) comb))
                         (combinations_with_replacement [0..<length r] k))
                 [0..<Suc d])"

text \<open>
  The expander object. \<^verbatim>\<open>fit\<close> records the number of input columns, the only thing it
  takes from the data; \<open>fitted_on\<close> keeps the matrix of the latest \<^verbatim>\<open>fit\<close>, to tell which
  data the object was fitted on. \<^verbatim>\<open>fit\<close> and \<^verbatim>\<open>transform\<close> raise \<^verbatim>\<open>ValueError\<close> on a matrix
  without rows or columns, and \<^verbatim>\<open>transform\<close> also when the object is not fitted or the
  number of columns differs from the fitted one. \<^verbatim>\<open>fit_transform\<close> is \<^verbatim>\<open>fit\<close> followed by
  \<^verbatim>\<open>transform\<close>.
\<close>

record poly_features =
  poly_degree :: nat
  n_input_features :: "nat option"
  fitted_on :: "real list list option"

definition PolynomialFeatures :: "nat \<Rightarrow> poly_features" where
  "PolynomialFeatures deg = \<lparr>poly_degree = deg, n_input_features = None, fitted_on = None\<rparr>"

definition poly_fit :: "poly_features \<Rightarrow> real list list \<Rightarrow> error + poly_features" where
  "poly_fit p X =
     (case X of
        [] \<Rightarrow> Inl ValueError
      | r # _ \<Rightarrow>
          if r = [] then Inl ValueError
          else Inr (p\<lparr>n_input_features := Some (length r), fitted_on := Some X\<rparr>))"

definition poly_transform :: "poly_features \<Rightarrow> real list list \<Rightarrow> error + real list list" where
  "poly_transform p X =
     (case n_input_features p of
        None \<Rightarrow> Inl ValueError
      | Some n \<Rightarrow>
          if X = [] \<or> (\<exists>r \<in> set X. length r \<noteq> n) then Inl ValueError
          else Inr (map (expand_row (poly_degree p)) X))"

definition fit_transform ::
  "poly_features \<Rightarrow> real list list \<Rightarrow> error + (poly_features \<times> real list list)" where
  "fit_transform p X =
     bind_err (poly_fit p X) (\<lambda>p1. bind_err (poly_transform p1 X) (\<lambda>Z. Inr (p1, Z)))"

subsection \<open>Cross-Validation Orchestrator: \<^verbatim>\<open>cross_validate\<close>\<close>

text \<open>\<^verbatim>\<open>df[target]\<close>: one numeric column.\<close>

definition column :: "string \<Rightarrow> 'd obs list \<Rightarrow> error + real list" where
  "column c df = bind_err (loc_cols [c] df) (\<lambda>m. Inr (map hd m))"

text \<open>
  Lines 272 to 276: the design matrices of one fold at one degree. The expander object
  is returned with them, in the state in which the loop body leaves it.
\<close>

definition expand_fold ::
  "nat \<Rightarrow> string list \<Rightarrow> string \<Rightarrow> 'a obs list \<Rightarrow> 'b obs list \<Rightarrow>
     error + (real list list \<times> real list \<times> real list list \<times> real list \<times> poly_features)" where
  "expand_fold deg features target train_df test_df =
     (let poly = PolynomialFeatures deg
      in bind_err (loc_cols features train_df) (\<lambda>train_sel.
         bind_err (fit_transform poly train_sel) (\<lambda>(poly1, X_train).
         bind_err (column target train_df) (\<lambda>y_train.
         bind_err (loc_cols features test_df) (\<lambda>test_sel.
         bind_err (fit_transform poly1 test_sel) (\<lambda>(poly2, X_test).
         bind_err (column target test_df) (\<lambda>y_test.
           Inr (X_train, y_train, X_test, y_test, poly2))))))))"

text \<open>
  \<^verbatim>\<open>str.extract(r"(\w+)\(")\<close> on one string: the first run of word characters that an
  opening parenthesis follows, \<open>None\<close> (NaN) when there is none. Word characters are the
  ASCII letters, digits and the underscore.
\<close>

definition word_char :: "char \<Rightarrow> bool" where
  "word_char c =
     (c \<in> set ''abcdefghijklmnopqrstuvwxyzABCDEFGHIJKLMNOPQRSTUVWXYZ0123456789_'')"

fun extract_word :: "string \<Rightarrow> string \<Rightarrow> string option" where
  "extract_word acc [] = None"
| "extract_word acc (c # cs) =
     (if word_char c then extract_word (acc @ [c]) cs
      else if c = CHR ''('' \<and> acc \<noteq> [] then Some acc
      else extract_word [] cs)"

text \<open>Lines 287 to 289: the label replaces the key in the column \<^verbatim>\<open>model\<close>.\<close>

definition label_row :: "'s library \<Rightarrow> grid_row \<Rightarrow> cv_row" where
  "label_row lib r =
     \<lparr>mse = mse r, mae = mae r, rss = rss r, run_time = run_time r,
      parameters = parameters r, model_type = model_type r,
      test_week_col = test_week_col r, degree = degree r,
      model = (case extract_word [] (index_key r) of
                 None \<Rightarrow> None
               | Some family \<Rightarrow>
                   Some (family @ '' '' @ ''degree_'' @ str_nat (degree r) @ '' '' @
                         str_params lib (parameters r)))\<rparr>"

text \<open>
  \<^verbatim>\<open>cross_validate\<close>, lines 254 to 291. The loop state is the run state with the list
  \<^verbatim>\<open>cv_eval\<close>; \<^verbatim>\<open>pd.concat\<close> raises \<^verbatim>\<open>ValueError\<close> on an empty list.
\<close>

definition cross_validate ::
  "'s library \<Rightarrow> fold list \<Rightarrow> string list \<Rightarrow> string \<Rightarrow> nat list \<Rightarrow>
     (string \<times> params list) list \<Rightarrow> run_state \<Rightarrow> error + (cv_row list \<times> run_state)" where
  "cross_validate lib temporal_splits features target degrees grid st =
     bind_err
       (for_each
          (\<lambda>cv sc.
             bind_err (normalize_and_merge (normalize_lib lib) (train cv) (test cv))
               (\<lambda>(train1, test1).
                  for_each
                    (\<lambda>deg sc1.
                       bind_err (expand_fold deg features target train1 test1)
                         (\<lambda>(X_train, y_train, X_test, y_test, poly).
                       bind_err (run_grid_search lib (NdArray X_train :: unit design) y_train
                                   (NdArray X_test :: unit design) y_test (test_week cv) deg grid
                                   (fst sc1))
                         (\<lambda>(model_perf, st1). Inr (st1, snd sc1 @ [model_perf]))))
                    degrees sc))
          temporal_splits (st, []))
       (\<lambda>(st1, cv_eval).
          if cv_eval = [] then Inl ValueError
          else Inr (map (label_row lib) (concat cv_eval), st1))"

subsection \<open>\<^verbatim>\<open>run_temporal_cv\<close>\<close>

text \<open>
  \<^verbatim>\<open>run_temporal_cv(temporal_splits)\<close>, lines 203 to 226: one cross-validation and one
  selection per feature set, in the order of \<^verbatim>\<open>FEATURES\<close>. \<^verbatim>\<open>temporal_splits[0]\<close> raises
  \<^verbatim>\<open>IndexError\<close> on an empty list of folds.
\<close>

definition run_temporal_cv ::
  "'s library \<Rightarrow> fold list \<Rightarrow> run_state \<Rightarrow> error + ((string \<times> best_config) list \<times> run_state)" where
  "run_temporal_cv lib temporal_splits st =
     (case temporal_splits of
        [] \<Rightarrow> Inl IndexError
      | first_split # _ \<Rightarrow>
          (let states = filter (contains_str ''state'') (frame_columns (train first_split))
           in bind_err
                (for_each
                   (\<lambda>ff sb.
                      bind_err (cross_validate lib temporal_splits (snd ff @ states)
                                  ''total_prisoner_cases'' DEGREES GRID (fst sb))
                        (\<lambda>(cv_df, st1).
                      bind_err (select_best cv_df)
                        (\<lambda>best. Inr (st1, AList.update (fst ff) best (snd sb)))))
                   FEATURES (st, []))
                (\<lambda>(st1, best_models). Inr (best_models, st1))))"

subsection \<open>Notions the properties are stated with\<close>

text \<open>
  Two outcomes are the same: both are the same exception, or both are results related
  by \<open>Q\<close>.
\<close>

abbreviation same_outcome :: "('a \<Rightarrow> 'b \<Rightarrow> bool) \<Rightarrow> error + 'a \<Rightarrow> error + 'b \<Rightarrow> bool" where
  "same_outcome Q \<equiv> rel_sum (=) Q"

text \<open>The dictionary \<^verbatim>\<open>model_perf\<close> with every \<^verbatim>\<open>run_time\<close> erased.\<close>

definition untimed :: "(string \<times> perf) list \<Rightarrow> (string \<times> perf) list" where
  "untimed model_perf = map (\<lambda>kp. (fst kp, (snd kp)\<lparr>run_time := 0\<rparr>)) model_perf"

text \<open>
  Two registries are configured alike for a grid: they hold the same families in the
  same order, and every entry of the grid configures the shared object of its family to
  the same instance in both (or \<^verbatim>\<open>set_params\<close> raises in both). A registry is configured
  alike to itself.
\<close>

definition configured_alike ::
  "(string \<times> params list) list \<Rightarrow> (string \<times> estimator) list \<Rightarrow> (string \<times> estimator) list \<Rightarrow> bool" where
  "configured_alike grid models1 models2 =
     (map fst models1 = map fst models2 \<and>
      (\<forall>k \<in> set (map fst models1).
         \<forall>p \<in> set (case map_of grid k of None \<Rightarrow> [] | Some param_list \<Rightarrow> param_list).
           map_option (\<lambda>m. set_params m p) (map_of models1 k) =
           map_option (\<lambda>m. set_params m p) (map_of models2 k)))"

text \<open>
  All entries that a grid lists for a family set the same parameter names, as the
  entries of \<^verbatim>\<open>GRID\<close> do.
\<close>

definition uniform_grid :: "(string \<times> params list) list \<Rightarrow> bool" where
  "uniform_grid grid =
     (\<forall>kps \<in> set grid. \<forall>p \<in> set (snd kps). \<forall>q \<in> set (snd kps).
        set (map fst p) = set (map fst q))"

text \<open>
  Two states of the grid search agree but for clock readings: the registries are
  configured alike for the grid and the dictionaries \<^verbatim>\<open>model_perf\<close> are the same. Likewise
  two results of \<^verbatim>\<open>run_grid_search\<close> and two states of the loop of \<^verbatim>\<open>cross_validate\<close>.
\<close>

definition same_search ::
  "(string \<times> params list) list \<Rightarrow>
     run_state \<times> (string \<times> perf) list \<Rightarrow> run_state \<times> (string \<times> perf) list \<Rightarrow> bool" where
  "same_search grid sp sp' =
     (configured_alike grid (registry (fst sp)) (registry (fst sp')) \<and>
      untimed (snd sp) = untimed (snd sp'))"

definition same_rows ::
  "(string \<times> params list) list \<Rightarrow>
     grid_row list \<times> run_state \<Rightarrow> grid_row list \<times> run_state \<Rightarrow> bool" where
  "same_rows grid out out' =
     (map (\<lambda>r. r\<lparr>run_time := 0\<rparr>) (fst out) = map (\<lambda>r. r\<lparr>run_time := 0\<rparr>) (fst out') \<and>
      configured_alike grid (registry (snd out)) (registry (snd out')))"

definition same_eval ::
  "(string \<times> params list) list \<Rightarrow>
     run_state \<times> grid_row list list \<Rightarrow> run_state \<times> grid_row list list \<Rightarrow> bool" where
  "same_eval grid sc sc' =
     (configured_alike grid (registry (fst sc)) (registry (fst sc')) \<and>
      map (map (\<lambda>r. r\<lparr>run_time := 0\<rparr>)) (snd sc) = map (map (\<lambda>r. r\<lparr>run_time := 0\<rparr>)) (snd sc'))"

text \<open>
  The (model family, hyperparameter) combinations of a registry and a grid, in the order
  in which \<^verbatim>\<open>run_grid_search\<close> visits them.
\<close>

definition combinations :: "(string \<times> estimator) list \<Rightarrow> (string \<times> params list) list \<Rightarrow> (string \<times> params) list" where
  "combinations models grid =
     concat (map (\<lambda>model_key. map (Pair model_key)
                    (case map_of grid model_key of None \<Rightarrow> [] | Some param_list \<Rightarrow> param_list))
                 (map fst models))"

text \<open>
  The shared estimator objects as \<^verbatim>\<open>set_params\<close> configures them, one per combination in
  turn: each call starts from the configuration the calls before it left in the
  registry. The list ends early at a family the registry does not hold or a parameter
  the estimator does not have.
\<close>

fun configured_instances :: "(string \<times> estimator) list \<Rightarrow> (string \<times> params) list \<Rightarrow> estimator list" where
  "configured_instances models [] = []"
| "configured_instances models ((model_key, param) # rest) =
     (case map_of models model_key of
        None \<Rightarrow> []
      | Some shared \<Rightarrow>
          (case set_params shared param of
             Inl e \<Rightarrow> []
           | Inr configured \<Rightarrow>
               configured # configured_instances (AList.update model_key configured models) rest))"

text \<open>The elements of a list in the order of their first occurrence.\<close>

fun first_occurrences :: "'a list \<Rightarrow> 'a list" where
  "first_occurrences [] = []"
| "first_occurrences (x # xs) = x # filter (\<lambda>y. y \<noteq> x) (first_occurrences xs)"

text \<open>
  The registry holds every family name once and every estimator class once, and the grid
  entries of each family are pairwise different dictionaries that all set the same
  parameter names, as the entries of \<^verbatim>\<open>GRID\<close> do.
\<close>

definition same_names :: "(string \<times> estimator) list \<Rightarrow> (string \<times> params list) list \<Rightarrow> bool" where
  "same_names models grid =
     (distinct (map fst models) \<and> distinct (map (\<lambda>km. est_class (snd km)) models) \<and>
      (\<forall>km \<in> set models. \<forall>param_list. map_of grid (fst km) = Some param_list \<longrightarrow>
         distinct param_list \<and>
         (\<forall>p \<in> set param_list. distinct (map fst p) \<and> map fst p = map fst (hd param_list))))"

text \<open>The class of every family of a registry.\<close>

definition classes :: "(string \<times> estimator) list \<Rightarrow> (string \<times> string) list" where
  "classes models = map (\<lambda>km. (fst km, est_class (snd km))) models"

text \<open>
  An estimator fits a combination: it has the class of the combination's family and
  holds every value the combination sets.
\<close>

definition fits :: "(string \<times> estimator) list \<Rightarrow> string \<times> params \<Rightarrow> estimator \<Rightarrow> bool" where
  "fits models0 kp c =
     (map_of (classes models0) (fst kp) = Some (est_class c) \<and>
      (distinct (map fst (snd kp)) \<longrightarrow>
         (\<forall>nv \<in> set (snd kp). map_of (est_params c) (fst nv) = Some (snd nv))))"

subsection \<open>Example data\<close>

definition wk_row :: "int \<Rightarrow> real \<Rightarrow> real \<Rightarrow> timestamp obs" where
  "wk_row w cases new_cases =
     \<lparr>as_of_date = Timestamp w, total_prisoner_cases = cases, lag_prisoner_cases = 0,
      new_prisoner_cases = new_cases,
      other_cols = [(''pop_2020'', 1), (''pop_2018'', 1), (''capacity'', 1), (''pct_occup'', 1),
                    (''no_visits'', 0), (''state_ohio'', 1)]\<rparr>"

definition four_weeks :: frame where
  "four_weeks = [wk_row 1 5 0, wk_row 2 6 1, wk_row 3 7 1, wk_row 4 9 2]"

text \<open>A stand-in for the normalizer that leaves every value as it is.\<close>

definition keep_scale :: "unit normalizer" where
  "keep_scale m s = Some (m, ())"

text \<open>Rows of an evaluation table.\<close>

definition table_row :: "string \<Rightarrow> nat \<Rightarrow> int \<Rightarrow> real \<Rightarrow> real \<Rightarrow> real \<Rightarrow> cv_row" where
  "table_row family deg wk a b c =
     \<lparr>mse = a, mae = b, rss = c, run_time = 1,
      parameters = [(''alpha'', PInt 1), (''random_state'', PInt 0)],
      model_type = family @ ''(alpha=1, random_state=0)'',
      test_week_col = wk, degree = deg,
      model = Some (family @ '' degree_'' @ str_nat deg @ '' {alpha: 1, random_state: 0}'')\<rparr>"

definition model_pair :: "cv_row list" where
  "model_pair = [table_row ''Lasso'' 1 3 1 5 5, table_row ''Ridge'' 2 3 5 1 1]"

text \<open>
  The arithmetic of the examples. \<open>binary64 x\<close> is the float64 nearest to \<open>x\<close>, ties going
  to the even significand: \<open>bin_exp k x\<close> is the binary exponent of a positive \<open>x\<close> (found in
  at most \<open>k\<close> steps), a float64 has 53 significant bits, and its exponent is at least
  \<open>-1022\<close>. Numbers beyond the largest float64 do not occur in the examples. The sums add
  from left to right and round after every addition; in the examples every partial sum
  is an integer far below \<open>2\<^sup>5\<^sup>3\<close>, so that no addition rounds, in whatever order the
  libraries add.
\<close>

fun bin_exp :: "nat \<Rightarrow> real \<Rightarrow> int" where
  "bin_exp 0 x = 0"
| "bin_exp (Suc k) x =
     (if 2 \<le> x then bin_exp k (x / 2) + 1
      else if x < 1 then bin_exp k (2 * x) - 1
      else 0)"

definition round_half_even :: "real \<Rightarrow> int" where
  "round_half_even x =
     (let f = \<lfloor>x\<rfloor>; d = x - of_int f
      in if d < 1 / 2 then f else if 1 / 2 < d then f + 1 else if even f then f else f + 1)"

definition pow2 :: "int \<Rightarrow> real" where
  "pow2 e = (if 0 \<le> e then 2 ^ nat e else 1 / 2 ^ nat (- e))"

definition binary64 :: "real \<Rightarrow> real" where
  "binary64 x =
     (if x = 0 then 0
      else let e = max (bin_exp 1100 \<bar>x\<bar>) (- 1022) - 52
           in of_int (round_half_even (x / pow2 e)) * pow2 e)"

definition binary64_ops :: float_ops where
  "binary64_ops =
     \<lparr>fl = binary64,
      np_sum = foldl (\<lambda>acc x. binary64 (acc + x)) 0,
      pd_sum = foldl (\<lambda>acc x. binary64 (acc + x)) 0\<rparr>"

text \<open>
  Stand-ins for the collaborators, used in the examples only: a rendering of estimators
  and parameter dictionaries that writes out every parameter (integers and booleans as
  Python does), a model that predicts 0 for every test row, and a clock that advances by
  one second per reading.
\<close>

fun demo_value :: "pyval \<Rightarrow> string" where
  "demo_value (PBool b) = (if b then ''True'' else ''False'')"
| "demo_value (PInt i) = str_int i"
| "demo_value (PFloat x) = ''<float>''"
| "demo_value (PStr s) = s"
| "demo_value PNone = ''None''"

fun join_items :: "string list \<Rightarrow> string" where
  "join_items [] = []"
| "join_items [x] = x"
| "join_items (x # y # zs) = x @ '', '' @ join_items (y # zs)"

definition demo_str_model :: "estimator \<Rightarrow> string" where
  "demo_str_model m =
     est_class m @ ''('' @
     join_items (map (\<lambda>kv. fst kv @ ''='' @ demo_value (snd kv)) (est_params m)) @ '')''"

definition demo_str_params :: "params \<Rightarrow> string" where
  "demo_str_params p =
     ''{'' @ join_items (map (\<lambda>kv. fst kv @ '': '' @ demo_value (snd kv)) p) @ ''}''"

definition demo_lib :: "unit library" where
  "demo_lib =
     \<lparr>normalize_lib = keep_scale,
      fit_predict_lib = (\<lambda>m X_train y_train X_test. Inr (map (\<lambda>r. 0) X_test)),
      str_model = demo_str_model, str_params = demo_str_params,
      now = (\<lambda>n. real n), numerics = binary64_ops\<rparr>"

text \<open>A registry of two families, and two grids for it.\<close>

definition two_models :: run_state where
  "two_models =
     \<lparr>registry =
        [(''Ridge'', \<lparr>est_class = ''Ridge'',
                      est_params = [(''alpha'', PInt 1), (''fit_intercept'', PBool True)]\<rparr>),
         (''Lasso'', \<lparr>est_class = ''Lasso'',
                      est_params = [(''alpha'', PInt 1), (''fit_intercept'', PBool True)]\<rparr>)],
      ticks = 0\<rparr>"

definition small_grid :: "(string \<times> params list) list" where
  "small_grid =
     [(''Ridge'', [[(''alpha'', PInt 1)], [(''alpha'', PInt 10)]]),
      (''Lasso'', [[(''alpha'', PInt 10)]])]"

definition leaky_grid :: "(string \<times> params list) list" where
  "leaky_grid =
     [(''Ridge'', [[(''alpha'', PInt 1), (''fit_intercept'', PBool False)], [(''alpha'', PInt 1)]]),
      (''Lasso'', [[(''alpha'', PInt 10)]])]"

text \<open>The registry \<open>two_models\<close> as a run with the grid \<open>small_grid\<close> leaves it.\<close>

definition after_small_grid :: "(string \<times> estimator) list" where
  "after_small_grid =
     [(''Ridge'', \<lparr>est_class = ''Ridge'',
                   est_params = [(''alpha'', PInt 10), (''fit_intercept'', PBool True)]\<rparr>),
      (''Lasso'', \<lparr>est_class = ''Lasso'',
                   est_params = [(''alpha'', PInt 10), (''fit_intercept'', PBool True)]\<rparr>)]"

text \<open>A grid whose second entry for \<open>Ridge\<close> sets a parameter that the first leaves alone.\<close>

definition widening_grid :: "(string \<times> params list) list" where
  "widening_grid =
     [(''Ridge'', [[(''alpha'', PInt 7)], [(''alpha'', PInt 7), (''fit_intercept'', PBool False)]]),
      (''Lasso'', [[(''alpha'', PInt 10)]])]"

text \<open>One fold: week 2 for training, week 3 for testing.\<close>

definition one_fold :: "fold list" where
  "one_fold = [\<lparr>test_week = 3, train = [wk_row 2 6 1], test = [wk_row 3 7 1]\<rparr>]"

section \<open>Properties\<close>

subsection \<open>Metric Evaluator\<close>

lemma bin_exp_unfold:
  "0 < k \<Longrightarrow> bin_exp k x =
     (if 2 \<le> x then bin_exp (k - 1) (x / 2) + 1
      else if x < 1 then bin_exp (k - 1) (2 * x) - 1
      else 0)"
  by (cases k) simp_all

lemmas binary64_eval =
  binary64_def bin_exp_unfold round_half_even_def pow2_def Let_def






subsection \<open>Feature Importance Extractor\<close>

lemma extend_labels_concat:
  "extend_labels features acc degs =
     acc @ concat (map (\<lambda>p. map (\<lambda>feat. format_label feat p) features) degs)"
  by (induction degs arbitrary: acc) auto

text \<open>
  C8: with degree 2 and the features \<open>a\<close>, \<open>b\<close> the labels are \<open>1\<close>, \<open>a^1\<close>, \<open>b^1\<close>, \<open>a^2\<close>,
  \<open>b^2\<close>; for every feature list and every truthy degree \<open>d\<close> the labels are \<open>1\<close> followed,
  for each power from 1 to \<open>d\<close> in turn, by the label \<open>feature^power\<close> of every feature in
  list order.
\<close>

theorem feature_labels_order:
  assumes "d \<noteq> 0"
  shows "feature_labels [''a'', ''b''] (Some 2) = [''1'', ''a^1'', ''b^1'', ''a^2'', ''b^2''] \<and>
         feature_labels features (Some d) =
           ''1'' # concat (map (\<lambda>power. map (\<lambda>feat. feat @ ''^'' @ str_int power) features) [1..d])"
proof
  show "feature_labels [''a'', ''b''] (Some 2) = [''1'', ''a^1'', ''b^1'', ''a^2'', ''b^2'']"
    by (simp add: feature_labels_def truthy_def upto.simps format_label_def str_int_def
        digit_char_def)
  show "feature_labels features (Some d) =
          ''1'' # concat (map (\<lambda>power. map (\<lambda>feat. feat @ ''^'' @ str_int power) features) [1..d])"
    using assms by (simp add: feature_labels_def truthy_def extend_labels_concat format_label_def)
qed

theorem feature_labels_order_witness:
  "(3::int) \<noteq> 0 \<and>
   feature_labels [''x'', ''y''] (Some 3) =
     [''1'', ''x^1'', ''y^1'', ''x^2'', ''y^2'', ''x^3'', ''y^3'']"
  using feature_labels_order [of 3 "[''x'', ''y'']"]
  by (simp add: upto.simps str_int_def digit_char_def)

subsection \<open>Temporal Splitter\<close>

lemma sorted_map_Min:
  "sorted (map f xs) \<Longrightarrow> xs \<noteq> [] \<Longrightarrow> Min (f ` set xs) = (f (hd xs) :: int)"
  by (cases xs) (auto intro!: Min_eqI)

text \<open>
  C4: for every fold that \<^verbatim>\<open>time_cv_split\<close> produces from a training set sorted by week,
  every week in the fold's \<open>train\<close> is at most \<open>test_week - 1\<close>, the earliest week of the
  whole training set does not occur in \<open>train\<close>, and \<open>test\<close> holds exactly the rows of the
  training set whose week is \<open>test_week\<close>.
\<close>

theorem time_cv_split_folds:
  assumes ret: "time_cv_split df = Inr folds"
    and mem: "f \<in> set folds"
    and srt: "sorted (map dt_week df)"
  shows "(\<forall>r \<in> set (train f). dt_week r \<le> test_week f - 1) \<and>
         (\<forall>r \<in> set (train f). dt_week r \<noteq> Min (dt_week ` set df)) \<and>
         test f = filter (\<lambda>r. dt_week r = test_week f) df"
proof -
  from ret have ne: "df \<noteq> []"
    by (auto simp: time_cv_split_def)
  define earliest where "earliest = dt_week (hd df)"
  from ret ne mem obtain wk where
    f: "f = \<lparr>test_week = wk + 1,
             train = filter (\<lambda>r. dt_week r \<le> wk \<and> dt_week r \<noteq> earliest) df,
             test = filter (\<lambda>r. dt_week r = wk + 1) df\<rparr>"
    by (auto simp: time_cv_split_def earliest_def Let_def split: list.splits)
  have "Min (dt_week ` set df) = earliest"
    unfolding earliest_def using srt ne by (rule sorted_map_Min)
  with f show ?thesis by auto
qed

theorem time_cv_split_folds_witness:
  "time_cv_split four_weeks =
     Inr [\<lparr>test_week = 3, train = [wk_row 2 6 1], test = [wk_row 3 7 1]\<rparr>,
          \<lparr>test_week = 4, train = [wk_row 2 6 1, wk_row 3 7 1], test = [wk_row 4 9 2]\<rparr>] \<and>
   sorted (map dt_week four_weeks) \<and>
   list_all (\<lambda>r. dt_week r \<le> 4 - 1 \<and> dt_week r \<noteq> Min (dt_week ` set four_weeks))
     [wk_row 2 6 1, wk_row 3 7 1] \<and>
   [wk_row 4 9 2] = filter (\<lambda>r. dt_week r = 4) four_weeks"
proof -
  have ret: "time_cv_split four_weeks =
     Inr [\<lparr>test_week = 3, train = [wk_row 2 6 1], test = [wk_row 3 7 1]\<rparr>,
          \<lparr>test_week = 4, train = [wk_row 2 6 1, wk_row 3 7 1], test = [wk_row 4 9 2]\<rparr>]"
    by (simp add: time_cv_split_def four_weeks_def dt_week_def wk_row_def upto.simps)
  have srt: "sorted (map dt_week four_weeks)"
    by (simp add: four_weeks_def dt_week_def wk_row_def)
  from time_cv_split_folds [OF ret _ srt,
      of "\<lparr>test_week = 4, train = [wk_row 2 6 1, wk_row 3 7 1], test = [wk_row 4 9 2]\<rparr>"]
  show ?thesis using ret srt by simp
qed

text \<open>
  C10: a training frame whose last week is at most one more than its first week gives an
  empty list of folds, and no error. No cross-validation is possible on it: on the
  empty list \<^verbatim>\<open>cross_validate\<close> raises \<^verbatim>\<open>ValueError\<close> and \<^verbatim>\<open>run_temporal_cv\<close> raises
  \<^verbatim>\<open>IndexError\<close>.
\<close>

theorem time_cv_split_too_short:
  assumes "df \<noteq> []" and "dt_week (last df) \<le> dt_week (hd df) + 1"
  shows "time_cv_split df = Inr [] \<and>
         cross_validate lib [] features target degrees grid st = Inl ValueError \<and>
         run_temporal_cv lib [] st = Inl IndexError"
  using assms
  by (cases df) (auto simp: time_cv_split_def Let_def cross_validate_def run_temporal_cv_def
      bind_err_def)

theorem time_cv_split_too_short_witness:
  "[wk_row 1 5 0, wk_row 2 6 1] \<noteq> [] \<and>
   dt_week (last [wk_row 1 5 0, wk_row 2 6 1]) \<le> dt_week (hd [wk_row 1 5 0, wk_row 2 6 1]) + 1 \<and>
   time_cv_split [wk_row 1 5 0, wk_row 2 6 1] = Inr [] \<and>
   cross_validate demo_lib [] [''lag_prisoner_cases''] ''total_prisoner_cases'' DEGREES GRID
     two_models = Inl ValueError"
  using time_cv_split_too_short [where df = "[wk_row 1 5 0, wk_row 2 6 1]" and lib = demo_lib
      and features = "[''lag_prisoner_cases'']" and target = "''total_prisoner_cases''"
      and degrees = DEGREES and grid = GRID and st = two_models]
  by (simp add: dt_week_def wk_row_def)

subsection \<open>Forward Simulator\<close>

lemma get_sim_col_set_col:
  "get_sim_col c' (set_col c v r) = (if c' = c then Some v else get_sim_col c' r)"
  by (auto simp: get_sim_col_def set_col_def set_num_col_def get_col_def update_conv')

lemma apply_overrides_length: "length (apply_overrides items df) = length df"
  by (induction items df rule: apply_overrides.induct) auto

lemma apply_overrides_col:
  "i < length df \<Longrightarrow>
   get_sim_col c (apply_overrides items df ! i) =
     (case map_of (rev items) c of Some v \<Rightarrow> Some v | None \<Rightarrow> get_sim_col c (df ! i))"
proof (induction items df rule: apply_overrides.induct)
  case (1 df)
  then show ?case by simp
next
  case (2 col val items df)
  then show ?case
    by (auto simp: get_sim_col_set_col map_add_def split: option.splits)
qed

lemma sorted_map_last_Max:
  "sorted (map f xs) \<Longrightarrow> xs \<noteq> [] \<Longrightarrow> (f (last xs) :: int) = Max (f ` set xs)"
proof (induction xs)
  case Nil
  then show ?case by simp
next
  case (Cons x xs)
  show ?case
  proof (cases "xs = []")
    case True
    then show ?thesis by simp
  next
    case False
    with Cons have "f (last xs) = Max (f ` set xs)" by simp
    moreover have "f x \<le> f (last xs)" using Cons.prems False by auto
    ultimately show ?thesis using False by (simp add: max_def)
  qed
qed

lemma latest_week_Max:
  assumes srt: "sorted (map dt_week dataset)"
    and ne: "filter (\<lambda>r. dt_week r \<noteq> dt_week (hd dataset)) dataset \<noteq> []"
  shows "dt_week (last (filter (\<lambda>r. dt_week r \<noteq> dt_week (hd dataset)) dataset)) =
         Max (dt_week ` set dataset)"
proof -
  let ?rest = "filter (\<lambda>r. dt_week r \<noteq> dt_week (hd dataset)) dataset"
  have ds: "dataset \<noteq> []" using ne by auto
  have "sorted (map dt_week ?rest)"
    using srt by (simp add: sorted_filter)
  then have last_max: "dt_week (last ?rest) = Max (dt_week ` set ?rest)"
    using ne by (rule sorted_map_last_Max)
  have mem: "last ?rest \<in> set dataset"
    using last_in_set [OF ne] by auto
  have low: "dt_week (hd dataset) \<le> dt_week r" if "r \<in> set dataset" for r
    using srt ds that by (cases dataset) auto
  have "dt_week r \<le> dt_week (last ?rest)" if r: "r \<in> set dataset" for r
  proof (cases "dt_week r = dt_week (hd dataset)")
    case True
    then show ?thesis using low [OF mem] by simp
  next
    case False
    with r have "r \<in> set ?rest" by simp
    then show ?thesis using last_max by simp
  qed
  with mem show ?thesis
    by (intro Max_eqI [symmetric]) auto
qed

lemma simulated_test_eq:
  assumes "filter (\<lambda>r. dt_week r \<noteq> dt_week (hd dataset)) dataset \<noteq> []"
  shows "simulated_test dataset items =
     (let rest = filter (\<lambda>r. dt_week r \<noteq> dt_week (hd dataset)) dataset;
          latest = filter (\<lambda>r. dt_week r = dt_week (last rest)) rest
      in Inr (rest, apply_overrides items
           (map (\<lambda>r. \<lparr>as_of_date = real_of_int (dt_week r + 1),
                       total_prisoner_cases = total_prisoner_cases r + new_prisoner_cases r,
                       lag_prisoner_cases = total_prisoner_cases r,
                       new_prisoner_cases = new_prisoner_cases r,
                       other_cols = other_cols r\<rparr>) latest)))"
proof (cases dataset)
  case Nil
  with assms show ?thesis by simp
next
  case (Cons d0 ds)
  define rest where "rest = filter (\<lambda>r. dt_week r \<noteq> dt_week d0) (d0 # ds)"
  have ne: "rest \<noteq> []" using assms Cons by (simp add: rest_def)
  then obtain x xs where xs: "rest = x # xs" by (cases rest) auto
  have "simulated_test (d0 # ds) items =
     Inr (rest, apply_overrides items
           (map (\<lambda>r. \<lparr>as_of_date = real_of_int (dt_week r + 1),
                       total_prisoner_cases = total_prisoner_cases r + new_prisoner_cases r,
                       lag_prisoner_cases = total_prisoner_cases r,
                       new_prisoner_cases = new_prisoner_cases r,
                       other_cols = other_cols r\<rparr>)
            (filter (\<lambda>r. dt_week r = dt_week (last rest)) rest)))"
    unfolding simulated_test_def list.case Let_def rest_def [symmetric]
    by (simp add: xs relabel_date_def dt_week_def comp_def del: last.simps)
  then show ?thesis
    by (simp add: Cons rest_def Let_def)
qed

text \<open>
  C5: for every dataset that holds a row outside its earliest week (otherwise \<^verbatim>\<open>simulate\<close>
  raises \<^verbatim>\<open>IndexError\<close>), let \<open>rest\<close> be the dataset without its earliest week and
  \<open>latest\<close> the rows of the week of its last row, which is the greatest week when the
  dataset is sorted. With an empty override mapping the simulated frame has one row per
  row of \<open>latest\<close>: its target is that row's \<open>total_prisoner_cases\<close> plus its
  \<open>new_prisoner_cases\<close>, its lag is that row's \<open>total_prisoner_cases\<close>, its date label is
  the week plus 1, and the other columns are kept. With any override mapping, every
  column named in the mapping holds the override in every simulated row, also a column
  just computed, and every other column is as without overrides.
\<close>

theorem simulated_test_rows:
  assumes two: "filter (\<lambda>r. dt_week r \<noteq> dt_week (hd dataset)) dataset \<noteq> []"
  shows "\<exists>rest latest base sim.
           rest = filter (\<lambda>r. dt_week r \<noteq> dt_week (hd dataset)) dataset \<and>
           latest = filter (\<lambda>r. dt_week r = dt_week (last rest)) rest \<and>
           (sorted (map dt_week dataset) \<longrightarrow> dt_week (last rest) = Max (dt_week ` set dataset)) \<and>
           simulated_test dataset [] = Inr (rest, base) \<and>
           base = map (\<lambda>r. \<lparr>as_of_date = real_of_int (dt_week r + 1),
                             total_prisoner_cases = total_prisoner_cases r + new_prisoner_cases r,
                             lag_prisoner_cases = total_prisoner_cases r,
                             new_prisoner_cases = new_prisoner_cases r,
                             other_cols = other_cols r\<rparr>) latest \<and>
           simulated_test dataset feat_dict = Inr (rest, sim) \<and>
           length sim = length base \<and>
           (\<forall>i < length base. \<forall>c.
              get_sim_col c (sim ! i) =
                (case map_of (rev feat_dict) c of
                   Some v \<Rightarrow> Some v
                 | None \<Rightarrow> get_sim_col c (base ! i)))"
  unfolding simulated_test_eq [OF two] Let_def
  using latest_week_Max [OF _ two]
  by (simp add: apply_overrides_length apply_overrides_col)

theorem simulated_test_rows_witness:
  "filter (\<lambda>r. dt_week r \<noteq> dt_week (hd four_weeks)) four_weeks \<noteq> [] \<and>
   simulated_test four_weeks [] =
     Inr ([wk_row 2 6 1, wk_row 3 7 1, wk_row 4 9 2],
          [\<lparr>as_of_date = 5, total_prisoner_cases = 11, lag_prisoner_cases = 9,
            new_prisoner_cases = 2, other_cols = other_cols (wk_row 4 9 2)\<rparr>]) \<and>
   simulated_test four_weeks [(''total_prisoner_cases'', 0), (''no_visits'', 1)] =
     Inr ([wk_row 2 6 1, wk_row 3 7 1, wk_row 4 9 2],
          [\<lparr>as_of_date = 5, total_prisoner_cases = 0, lag_prisoner_cases = 9,
            new_prisoner_cases = 2,
            other_cols = [(''pop_2020'', 1), (''pop_2018'', 1), (''capacity'', 1),
                          (''pct_occup'', 1), (''no_visits'', 1), (''state_ohio'', 1)]\<rparr>])"
proof -
  have two: "filter (\<lambda>r. dt_week r \<noteq> dt_week (hd four_weeks)) four_weeks \<noteq> []"
    by (simp add: four_weeks_def dt_week_def wk_row_def)
  from simulated_test_rows [OF two, of "[(''total_prisoner_cases'', 0), (''no_visits'', 1)]"]
  obtain rest latest base sim where
    "rest = filter (\<lambda>r. dt_week r \<noteq> dt_week (hd four_weeks)) four_weeks"
    "latest = filter (\<lambda>r. dt_week r = dt_week (last rest)) rest"
    "simulated_test four_weeks [] = Inr (rest, base)"
    "base = map (\<lambda>r. \<lparr>as_of_date = real_of_int (dt_week r + 1),
                      total_prisoner_cases = total_prisoner_cases r + new_prisoner_cases r,
                      lag_prisoner_cases = total_prisoner_cases r,
                      new_prisoner_cases = new_prisoner_cases r,
                      other_cols = other_cols r\<rparr>) latest"
    "simulated_test four_weeks [(''total_prisoner_cases'', 0), (''no_visits'', 1)] = Inr (rest, sim)"
    by blast
  then have "simulated_test four_weeks [] =
     Inr ([wk_row 2 6 1, wk_row 3 7 1, wk_row 4 9 2],
          [\<lparr>as_of_date = 5, total_prisoner_cases = 11, lag_prisoner_cases = 9,
            new_prisoner_cases = 2, other_cols = other_cols (wk_row 4 9 2)\<rparr>])"
    by (simp add: four_weeks_def dt_week_def wk_row_def)
  moreover have "simulated_test four_weeks [(''total_prisoner_cases'', 0), (''no_visits'', 1)] =
     Inr ([wk_row 2 6 1, wk_row 3 7 1, wk_row 4 9 2],
          [\<lparr>as_of_date = 5, total_prisoner_cases = 0, lag_prisoner_cases = 9,
            new_prisoner_cases = 2,
            other_cols = [(''pop_2020'', 1), (''pop_2018'', 1), (''capacity'', 1),
                          (''pct_occup'', 1), (''no_visits'', 1), (''state_ohio'', 1)]\<rparr>])"
    by (simp add: simulated_test_def four_weeks_def dt_week_def wk_row_def relabel_date_def
        set_col_def set_num_col_def)
  ultimately show ?thesis using two by simp
qed

subsection \<open>Normalization and feature assembly\<close>

lemma map_of_FEATURES_None:
  "feat_type \<notin> {''naive'', ''population'', ''policy'', ''total''} \<Longrightarrow>
   map_of FEATURES feat_type = None"
  by (simp add: FEATURES_def)

lemma select_row_error: "select_row cs r = Inl e \<Longrightarrow> \<exists>c. e = KeyError c"
  by (induction cs arbitrary: e) (auto simp: bind_err_def split: option.splits sum.splits)

lemma loc_cols_error: "loc_cols cs df = Inl e \<Longrightarrow> \<exists>c. e = KeyError c"
  by (induction df arbitrary: e) (auto simp: bind_err_def split: sum.splits dest: select_row_error)

lemma normalize_and_merge_error:
  "normalize_and_merge normalize_fn train_df test_df = Inl e \<Longrightarrow>
     e = CollaboratorError \<or> (\<exists>c. e = KeyError c)"
  unfolding normalize_and_merge_def bind_err_def
  by (auto split: sum.splits option.splits dest!: loc_cols_error)

text \<open>
  C9, as the claim states it, fails: with a feature-set name that \<^verbatim>\<open>FEATURES\<close> does not
  hold, \<^verbatim>\<open>normalize_prep_eval_data\<close> raises the \<^verbatim>\<open>KeyError\<close> of the dictionary lookup, and
  on a training frame without rows the \<^verbatim>\<open>IndexError\<close> of \<^verbatim>\<open>.iloc[0]\<close> comes first. The
  source defines and raises no configuration error.
\<close>

theorem unknown_feature_set_raises_KeyError:
  "normalize_prep_eval_data keep_scale four_weeks [wk_row 5 9 1] ''bogus'' False =
     Inl (KeyError ''bogus'') \<and>
   normalize_prep_eval_data keep_scale [] [wk_row 5 9 1] ''bogus'' False = Inl IndexError"
  by (simp add: normalize_prep_eval_data_def normalize_and_merge_def keep_scale_def four_weeks_def
      wk_row_def norm_features_def get_col_def bind_err_def drop_and_merge_def merge_cols_def
      drop_num_cols_def set_num_col_def dt_week_def FEATURES_def)

text \<open>
  C9 (amended): for every train and test frame and every feature-set name other than
  \<open>naive\<close>, \<open>population\<close>, \<open>policy\<close> and \<open>total\<close>, \<^verbatim>\<open>normalize_prep_eval_data\<close> returns no
  result. It raises what the normalization raises, if that fails; \<^verbatim>\<open>IndexError\<close> if the
  training frame has no rows; and otherwise \<^verbatim>\<open>KeyError\<close> with the unknown name. It never
  raises a \<open>ConfigurationError\<close>.
\<close>

theorem unknown_feature_set_fails:
  assumes unknown: "feat_type \<notin> {''naive'', ''population'', ''policy'', ''total''}"
  shows "normalize_prep_eval_data normalize_fn train_df test_df feat_type include_date =
           (case normalize_and_merge normalize_fn train_df test_df of
              Inl e \<Rightarrow> Inl e
            | Inr (train1, test1) \<Rightarrow>
                if train1 = [] then Inl IndexError else Inl (KeyError feat_type)) \<and>
         (\<forall>res. normalize_prep_eval_data normalize_fn train_df test_df feat_type include_date \<noteq>
                  Inr res) \<and>
         normalize_prep_eval_data normalize_fn train_df test_df feat_type include_date \<noteq>
           Inl ConfigurationError"
proof -
  have none: "map_of FEATURES feat_type = None"
    using unknown by (rule map_of_FEATURES_None)
  have eq: "normalize_prep_eval_data normalize_fn train_df test_df feat_type include_date =
           (case normalize_and_merge normalize_fn train_df test_df of
              Inl e \<Rightarrow> Inl e
            | Inr (train1, test1) \<Rightarrow>
                if train1 = [] then Inl IndexError else Inl (KeyError feat_type))"
    by (simp add: normalize_prep_eval_data_def bind_err_def none Let_def
        split: sum.splits list.splits prod.splits)
  show ?thesis
  proof (cases "normalize_and_merge normalize_fn train_df test_df")
    case (Inl e)
    then show ?thesis
      using eq normalize_and_merge_error [OF Inl] by auto
  next
    case (Inr p)
    then show ?thesis
      using eq by (cases p) auto
  qed
qed

theorem unknown_feature_set_fails_witness:
  "''bogus'' \<notin> {''naive'', ''population'', ''policy'', ''total''} \<and>
   normalize_prep_eval_data keep_scale four_weeks [wk_row 5 9 1] ''bogus'' True =
     Inl (KeyError ''bogus'')"
  using unknown_feature_set_fails [of "''bogus''" keep_scale four_weeks "[wk_row 5 9 1]" True]
  by (simp add: normalize_and_merge_def keep_scale_def four_weeks_def wk_row_def norm_features_def
      get_col_def bind_err_def drop_and_merge_def)

subsection \<open>Best-Model Selector\<close>

lemma set_group_keys [simp]: "set (group_keys ks) = set ks"
  by (simp add: group_keys_def)

lemma distinct_group_keys [simp]: "distinct (group_keys ks)"
  by (simp add: group_keys_def)

lemma labels_by_model_means:
  "map model_label (by_model_means t) = group_keys (List.map_filter model t)"
  by (simp add: by_model_means_def Let_def comp_def)

lemma count_list_filter_distinct:
  "distinct (map g xs) \<Longrightarrow>
   count_list (map g (filter P xs)) k = (if \<exists>x\<in>set xs. g x = k \<and> P x then 1 else 0)"
proof (induction xs)
  case Nil
  then show ?case by simp
next
  case (Cons x xs)
  then show ?case by (auto simp: image_iff)
qed

lemma min_list_le: "x \<in> set xs \<Longrightarrow> min_list xs \<le> (x::real)"
  by (cases "xs = []") (simp_all add: min_list_Min)

lemma min_list_mem: "xs \<noteq> [] \<Longrightarrow> min_list xs \<in> set (xs::real list)"
  by (simp add: min_list_Min)

lemma eq_min_list_iff:
  "x \<in> set xs \<Longrightarrow> (x = min_list xs) = (\<forall>y\<in>set xs. x \<le> (y::real))"
proof
  assume "x \<in> set xs" "x = min_list xs"
  then show "\<forall>y\<in>set xs. x \<le> y" by (simp add: min_list_le)
next
  assume x: "x \<in> set xs" and le: "\<forall>y\<in>set xs. x \<le> y"
  then have "xs \<noteq> []" by auto
  then have "min_list xs \<in> set xs" by (rule min_list_mem)
  with le have "x \<le> min_list xs" by simp
  moreover have "min_list xs \<le> x" using x by (rule min_list_le)
  ultimately show "x = min_list xs" by simp
qed


text \<open>
  The pool is as the claim has it: it holds a label once for every metric under which
  the label achieves the minimum mean.
\<close>

lemma best_by_count:
  assumes g: "\<And>k. g \<lparr>mse = group_mean mse t k, mae = group_mean mae t k,
                       rss = group_mean rss t k, model_label = k\<rparr> = group_mean f t k"
  shows "count_list (map model_label (best_by g (by_model_means t))) k =
           (if is_best f t k then 1 else 0)"
proof -
  let ?ls = "group_keys (List.map_filter model t)"
  let ?row = "\<lambda>k. \<lparr>mse = group_mean mse t k, mae = group_mean mae t k,
                    rss = group_mean rss t k, model_label = k\<rparr>"
  have means: "by_model_means t = map ?row ?ls"
    by (simp add: by_model_means_def group_mean_def Let_def)
  have vals: "map g (by_model_means t) = map (group_mean f t) ?ls"
    by (simp add: means g comp_def)
  have dist: "distinct (map model_label (by_model_means t))"
    by (simp add: labels_by_model_means)
  have "(\<exists>m\<in>set (by_model_means t). model_label m = k \<and> g m = min_list (map g (by_model_means t)))
        = is_best f t k"
  proof (cases "k \<in> set ?ls")
    case False
    then show ?thesis by (auto simp: means is_best_def)
  next
    case True
    then have "group_mean f t k \<in> set (map (group_mean f t) ?ls)" by simp
    from eq_min_list_iff [OF this]
    have "(group_mean f t k = min_list (map (group_mean f t) ?ls)) =
          (\<forall>k'\<in>set ?ls. group_mean f t k \<le> group_mean f t k')" by simp
    moreover have "(\<exists>m\<in>set (by_model_means t). model_label m = k \<and> g m = min_list (map g (by_model_means t)))
       = (group_mean f t k = min_list (map (group_mean f t) ?ls))"
      unfolding vals using True by (auto simp: means g)
    ultimately show ?thesis using True by (simp add: is_best_def)
  qed
  then show ?thesis
    unfolding best_by_def using count_list_filter_distinct [OF dist] by simp
qed

lemma pool_counts:
  "count_list (map model_label (find_best_model t)) k =
     of_bool (is_best mse t k) + of_bool (is_best mae t k) + of_bool (is_best rss t k)"
  by (simp add: find_best_model_def Let_def best_by_count [where f = mse]
      best_by_count [where f = mae] best_by_count [where f = rss])

text \<open>
  Sorting the tally does not move the index labels, so that \<^verbatim>\<open>.loc[0]\<close> reads the row
  of the first group, which is the least pooled label, whatever the counts are.
\<close>

lemma filter_index0_enumerate:
  "filter (\<lambda>ik. fst ik = 0) (enumerate 0 ks) = (case ks of [] \<Rightarrow> [] | k # _ \<Rightarrow> [(0, k)])"
proof (cases ks)
  case Nil
  then show ?thesis by simp
next
  case (Cons k ks')
  have rest: "filter (\<lambda>ik. fst ik = 0) (enumerate (Suc 0) ks') = []"
    by (rule filter_False) (auto simp: in_set_enumerate_eq)
  show ?thesis by (simp add: Cons rest)
qed

lemma loc_0_model_sorted:
  assumes "best_from_feat \<noteq> []"
  shows "loc_0_model (sort_by_count_desc (group_sizes best_from_feat)) =
           Inr (hd (group_keys (map model_label best_from_feat)))"
proof -
  let ?ls = "map model_label best_from_feat"
  have ne: "group_keys ?ls \<noteq> []"
    using assms by (metis set_group_keys map_is_Nil_conv set_empty)
  then obtain k ks where ks: "group_keys ?ls = k # ks"
    by (cases "group_keys ?ls") auto
  have "filter (\<lambda>ikc. fst ikc = 0) (sort_by_count_desc (group_sizes best_from_feat)) =
        sort_key (\<lambda>ikc. - int (snd (snd ikc)))
          (filter (\<lambda>ikc. fst ikc = 0) (group_sizes best_from_feat))"
    by (simp add: sort_by_count_desc_def filter_sort)
  also have "filter (\<lambda>ikc. fst ikc = 0) (group_sizes best_from_feat) =
        map (\<lambda>ik. (fst ik, snd ik, count_list ?ls (snd ik)))
          (filter (\<lambda>ik. fst ik = 0) (enumerate 0 (group_keys ?ls)))"
    by (simp add: group_sizes_def Let_def filter_map comp_def)
  also have "\<dots> = [(0, k, count_list ?ls k)]"
    unfolding filter_index0_enumerate ks by simp
  finally show ?thesis
    by (simp add: loc_0_model_def ks)
qed

lemma best_by_nonempty: "means \<noteq> [] \<Longrightarrow> best_by f means \<noteq> []"
proof -
  assume "means \<noteq> []"
  then have "map f means \<noteq> []" by simp
  then have "min_list (map f means) \<in> set (map f means)" by (rule min_list_mem)
  then obtain m where "m \<in> set means" "f m = min_list (map f means)" by auto
  then show ?thesis by (auto simp: best_by_def filter_empty_conv)
qed

lemma find_best_model_nonempty:
  assumes "\<exists>r\<in>set t. model r \<noteq> None"
  shows "find_best_model t \<noteq> []"
proof -
  from assms obtain r k where "r \<in> set t" "model r = Some k" by auto
  then have "k \<in> set (List.map_filter model t)"
    by (force simp: List.map_filter_def)
  then have "by_model_means t \<noteq> []"
    by (metis labels_by_model_means set_group_keys empty_iff empty_set map_is_Nil_conv)
  then show ?thesis
    by (simp add: find_best_model_def Let_def best_by_nonempty)
qed

lemma set_best_by: "set (best_by f means) \<subseteq> set means"
  by (auto simp: best_by_def)

lemma pool_labels_subset:
  "set (map model_label (find_best_model t)) \<subseteq> set (List.map_filter model t)"
proof -
  have "set (find_best_model t) \<subseteq> set (by_model_means t)"
    using set_best_by by (fastforce simp: find_best_model_def Let_def)
  then have "model_label ` set (find_best_model t) \<subseteq> model_label ` set (by_model_means t)"
    by blast
  also have "\<dots> = set (List.map_filter model t)"
    using labels_by_model_means [of t] by (metis set_group_keys set_map)
  finally show ?thesis by simp
qed

lemma first_token_Inr:
  "\<exists>c\<in>set s. \<not> is_space c \<Longrightarrow> \<exists>family. first_token s = Inr family"
proof -
  assume "\<exists>c\<in>set s. \<not> is_space c"
  then have "dropWhile is_space s \<noteq> []" by simp
  then show ?thesis by (cases "dropWhile is_space s") (auto simp: first_token_def)
qed

lemma filter_hd_find:
  "filter P xs = y # ys \<Longrightarrow> find P xs = Some y"
  by (induction xs) (auto split: if_splits)

text \<open>
  So for every table with a labelled row, and no blank label, the selector returns the
  first row of the table that carries the least pooled label.
\<close>

lemma select_best_least_label:
  assumes lab: "\<exists>r\<in>set cv_df. model r \<noteq> None"
    and tok: "\<forall>r\<in>set cv_df. \<forall>l. model r = Some l \<longrightarrow> (\<exists>c\<in>set l. \<not> is_space c)"
  shows "\<exists>best_model family.
     find (\<lambda>r. model r = Some (hd (group_keys (map model_label (find_best_model cv_df)))))
       cv_df = Some best_model \<and>
     first_token (hd (group_keys (map model_label (find_best_model cv_df)))) = Inr family \<and>
     select_best cv_df =
       Inr \<lparr>cfg_degree = degree best_model, cfg_params = parameters best_model,
            cfg_model_type = family\<rparr>"
proof -
  let ?pool = "find_best_model cv_df"
  let ?ls = "map model_label ?pool"
  define best_single where "best_single = hd (group_keys ?ls)"
  have pool_ne: "?pool \<noteq> []"
    using lab by (rule find_best_model_nonempty)
  then have "group_keys ?ls \<noteq> []"
    by (metis set_group_keys map_is_Nil_conv set_empty)
  then have "best_single \<in> set (group_keys ?ls)"
    unfolding best_single_def by (rule hd_in_set)
  then have in_pool: "best_single \<in> set ?ls" by simp
  then have "best_single \<in> set (List.map_filter model cv_df)"
    using pool_labels_subset by blast
  then obtain r where r: "r \<in> set cv_df" "model r = Some best_single"
    by (auto simp: List.map_filter_def)
  then have "filter (\<lambda>r. model r = Some best_single) cv_df \<noteq> []"
    by (auto simp: filter_empty_conv)
  then obtain best_model rest where
    flt: "filter (\<lambda>r. model r = Some best_single) cv_df = best_model # rest"
    by (cases "filter (\<lambda>r. model r = Some best_single) cv_df") auto
  from tok r obtain family where fam: "first_token best_single = Inr family"
    using first_token_Inr by blast
  have loc: "loc_0_model (sort_by_count_desc (group_sizes ?pool)) = Inr best_single"
    using loc_0_model_sorted [OF pool_ne] by (simp add: best_single_def)
  have sel: "select_best cv_df =
       Inr \<lparr>cfg_degree = degree best_model, cfg_params = parameters best_model,
            cfg_model_type = family\<rparr>"
    by (simp add: select_best_def Let_def loc bind_err_def flt fam)
  show ?thesis
    using filter_hd_find [OF flt] fam sel unfolding best_single_def by blast
qed

text \<open>
  C1: the code does not do what the claim says. In the table \<open>model_pair\<close> the label of
  family \<open>Lasso\<close> has the least mean \<open>mse\<close> and the label of family \<open>Ridge\<close> the least mean
  \<open>mae\<close> and \<open>rss\<close>, so the pool holds \<open>Ridge\<close> twice and \<open>Lasso\<close> once. Line 216 sorts the
  tally by count, which puts \<open>Ridge\<close> first; its row keeps the index label 1. Line 217 reads
  \<^verbatim>\<open>best_type.loc[0, 'model']\<close>, the row with the index label 0, not the first row: the
  selector returns the configuration of \<open>Lasso\<close>, the family with the lower count.
\<close>

theorem selector_ignores_counts:
  "sort_by_count_desc (group_sizes (find_best_model model_pair)) =
     [(1, ''Ridge degree_2 {alpha: 1, random_state: 0}'', 2),
      (0, ''Lasso degree_1 {alpha: 1, random_state: 0}'', 1)] \<and>
   loc_0_model (sort_by_count_desc (group_sizes (find_best_model model_pair))) =
     Inr ''Lasso degree_1 {alpha: 1, random_state: 0}'' \<and>
   select_best model_pair =
     Inr \<lparr>cfg_degree = 1, cfg_params = [(''alpha'', PInt 1), (''random_state'', PInt 0)],
          cfg_model_type = ''Lasso''\<rparr> \<and>
   family_tally (find_best_model model_pair) ''Lasso'' = 1 \<and>
   family_tally (find_best_model model_pair) ''Ridge'' = 2"
  by (simp add: select_best_def find_best_model_def by_model_means_def group_keys_def best_by_def
      mean_of_def group_sizes_def sort_by_count_desc_def loc_0_model_def first_token_def
      is_space_def model_pair_def table_row_def List.map_filter_def bind_err_def family_tally_def
      less_eq_char_def less_char_def list_le_def list_less_def digit_char_def)

subsection \<open>Cross-Validation Orchestrator\<close>

lemma same_outcome_bind:
  assumes "same_outcome A m m'"
    and "\<And>x y. A x y \<Longrightarrow> same_outcome B (f x) (g y)"
  shows "same_outcome B (bind_err m f) (bind_err m' g)"
  using assms by (cases m; cases m') (simp_all add: bind_err_def)

lemma same_outcome_for_each:
  assumes "\<And>x s s'. Q s s' \<Longrightarrow> same_outcome Q (body x s) (body' x s')"
  shows "Q s s' \<Longrightarrow> same_outcome Q (for_each body xs s) (for_each body' xs s')"
proof (induction xs arbitrary: s s')
  case Nil
  then show ?case by simp
next
  case (Cons x xs)
  show ?case
    unfolding for_each.simps
    by (rule same_outcome_bind [OF assms [OF Cons.prems]]) (rule Cons.IH)
qed

lemma untimed_update:
  "untimed (AList.update k v mp) = AList.update k (v\<lparr>run_time := 0\<rparr>) (untimed mp)"
  by (induction mp) (auto simp: untimed_def)

text \<open>Registries that are configured alike.\<close>

lemma configured_alike_refl: "configured_alike grid models models"
  by (simp add: configured_alike_def)

lemma configured_alike_keys:
  "configured_alike grid m1 m2 \<Longrightarrow> map fst m1 = map fst m2"
  by (simp add: configured_alike_def)

lemma map_of_None_keys: "map fst m1 = map fst m2 \<Longrightarrow> map_of m1 k = None \<Longrightarrow> map_of m2 k = None"
  by (metis map_of_eq_None_iff set_map)

lemma configured_alike_lookup:
  assumes "configured_alike grid m1 m2" "map_of grid k = Some ps" "p \<in> set ps"
    "map_of m1 k = Some e1"
  shows "\<exists>e2. map_of m2 k = Some e2 \<and> set_params e1 p = set_params e2 p"
proof -
  have k: "k \<in> set (map fst m1)"
    using assms(4) by (metis map_of_eq_None_iff option.distinct(1) set_map)
  then have "k \<in> set (map fst m2)" using configured_alike_keys [OF assms(1)] by simp
  then obtain e2 where e2: "map_of m2 k = Some e2"
    by (metis map_of_eq_None_iff not_None_eq set_map)
  from assms(1) k assms(2,3)
  have "map_option (\<lambda>m. set_params m p) (map_of m1 k) = map_option (\<lambda>m. set_params m p) (map_of m2 k)"
    unfolding configured_alike_def by force
  then show ?thesis using e2 assms(4) by simp
qed

lemma configured_alike_update:
  assumes "configured_alike grid m1 m2"
  shows "configured_alike grid (AList.update k c m1) (AList.update k c m2)"
proof -
  have keys: "map fst m1 = map fst m2" using assms by (rule configured_alike_keys)
  have k1: "map fst (AList.update k c m1) = map fst (AList.update k c m2)"
    using keys by (simp add: update_keys)
  have "set (map fst (AList.update k c m1)) = insert k (set (map fst m1))"
    by (auto simp: update_keys)
  then show ?thesis
    using assms k1 unfolding configured_alike_def
    by (auto simp: update_conv' simp del: set_map)
qed

lemma same_outcome_for_each_mem:
  "(\<And>x s s'. x \<in> set xs \<Longrightarrow> Q s s' \<Longrightarrow> same_outcome Q (body x s) (body' x s')) \<Longrightarrow>
   Q s s' \<Longrightarrow> same_outcome Q (for_each body xs s) (for_each body' xs s')"
proof (induction xs arbitrary: s s')
  case Nil
  then show ?case by simp
next
  case (Cons x xs)
  have step: "same_outcome Q (body x s) (body' x s')"
    by (rule Cons.prems(1)) (simp_all add: Cons.prems(2))
  show ?case
    unfolding for_each.simps
  proof (rule same_outcome_bind [OF step])
    fix t t' assume "Q t t'"
    then show "same_outcome Q (for_each body xs t) (for_each body' xs t')"
      by (rule Cons.IH [rotated]) (rule Cons.prems(1), simp_all)
  qed
qed

text \<open>
  Two runs from registries that are configured alike proceed alike, whatever the two
  clocks read.
\<close>

lemma fit_and_predict_alike:
  assumes alike: "configured_alike grid (registry st) (registry st')"
    and grid: "map_of grid model_key = Some param_list" "param \<in> set param_list"
  shows "same_outcome (\<lambda>r r'. fst r = fst r' \<and> fst (snd r) = fst (snd r') \<and>
                          configured_alike grid (registry (snd (snd r))) (registry (snd (snd r'))))
           (fit_and_predict (lib\<lparr>now := c1\<rparr>) X_train y_train X_test model_key param st)
           (fit_and_predict (lib\<lparr>now := c2\<rparr>) X_train y_train X_test model_key param st')"
proof (cases "map_of (registry st) model_key")
  case None
  then have "map_of (registry st') model_key = None"
    using map_of_None_keys [OF configured_alike_keys [OF alike]] by simp
  with None show ?thesis by (simp add: fit_and_predict_def)
next
  case (Some e1)
  from configured_alike_lookup [OF alike grid Some]
  obtain e2 where e2: "map_of (registry st') model_key = Some e2"
    and eq: "set_params e1 param = set_params e2 param" by blast
  show ?thesis
  proof (cases "set_params e2 param")
    case (Inl err)
    then show ?thesis using Some e2 eq by (simp add: fit_and_predict_def bind_err_def)
  next
    case (Inr c)
    have upd: "configured_alike grid (AList.update model_key c (registry st))
                 (AList.update model_key c (registry st'))"
      using alike by (rule configured_alike_update)
    show ?thesis
      using Some e2 eq Inr upd
      by (simp add: fit_and_predict_def bind_err_def split: sum.splits)
  qed
qed

lemma build_classifier_alike:
  assumes sp: "same_search grid sp sp'"
    and grid: "map_of grid model_key = Some param_list" "param \<in> set param_list"
  shows "same_outcome (same_search grid)
           (build_classifier (lib\<lparr>now := c1\<rparr>) X_train y_train X_test y_test model_key param sp)
           (build_classifier (lib\<lparr>now := c2\<rparr>) X_train y_train X_test y_test model_key param sp')"
proof -
  have reg: "configured_alike grid (registry ((fst sp)\<lparr>ticks := ticks (fst sp) + 1\<rparr>))
               (registry ((fst sp')\<lparr>ticks := ticks (fst sp') + 1\<rparr>))"
    using sp by (simp add: same_search_def)
  show ?thesis
    unfolding build_classifier_def Let_def
  proof (rule same_outcome_bind [OF fit_and_predict_alike [OF reg grid]], goal_cases)
    case (1 r r')
    then show ?case
      using sp
      by (cases r; cases r')
         (auto simp: bind_err_def same_search_def untimed_update split: sum.splits)
  qed
qed

lemma untimed_rows:
  "untimed mp = untimed mp' \<Longrightarrow>
   map (\<lambda>r. r\<lparr>run_time := 0\<rparr>)
     (map (\<lambda>kp. \<lparr>mse = mse (snd kp), mae = mae (snd kp), rss = rss (snd kp),
                  run_time = run_time (snd kp), parameters = parameters (snd kp),
                  model_type = model_type (snd kp),
                  test_week_col = wk, degree = deg, index_key = fst kp\<rparr>) mp) =
   map (\<lambda>r. r\<lparr>run_time := 0\<rparr>)
     (map (\<lambda>kp. \<lparr>mse = mse (snd kp), mae = mae (snd kp), rss = rss (snd kp),
                  run_time = run_time (snd kp), parameters = parameters (snd kp),
                  model_type = model_type (snd kp),
                  test_week_col = wk, degree = deg, index_key = fst kp\<rparr>) mp')"
proof -
  assume eq: "untimed mp = untimed mp'"
  have "map (\<lambda>r. r\<lparr>run_time := 0\<rparr>)
     (map (\<lambda>kp. \<lparr>mse = mse (snd kp), mae = mae (snd kp), rss = rss (snd kp),
                  run_time = run_time (snd kp), parameters = parameters (snd kp),
                  model_type = model_type (snd kp),
                  test_week_col = wk, degree = deg, index_key = fst kp\<rparr>) xs) =
     map (\<lambda>kp. \<lparr>mse = mse (snd kp), mae = mae (snd kp), rss = rss (snd kp),
                  run_time = run_time (snd kp), parameters = parameters (snd kp),
                  model_type = model_type (snd kp),
                  test_week_col = wk, degree = deg, index_key = fst kp\<rparr>) (untimed xs)" for xs
    by (simp add: untimed_def comp_def)
  then show ?thesis using eq by simp
qed

lemma run_grid_search_alike:
  assumes reg: "configured_alike grid (registry st) (registry st')"
  shows "same_outcome (same_rows grid)
           (run_grid_search (lib\<lparr>now := c1\<rparr>) X_train y_train X_test y_test wk deg grid st)
           (run_grid_search (lib\<lparr>now := c2\<rparr>) X_train y_train X_test y_test wk deg grid st')"
proof -
  have start: "same_search grid (st, []) (st', [])"
    using reg by (simp add: same_search_def)
  have keys: "map fst (registry st') = map fst (registry st)"
    using configured_alike_keys [OF reg] by simp
  have loop: "same_outcome (same_search grid)
     (for_each (\<lambda>model_key sp. case map_of grid model_key of
                  None \<Rightarrow> Inl (KeyError model_key)
                | Some param_list \<Rightarrow>
                    for_each (build_classifier (lib\<lparr>now := c1\<rparr>) X_train y_train X_test y_test model_key)
                      param_list sp) (map fst (registry st)) (st, []))
     (for_each (\<lambda>model_key sp. case map_of grid model_key of
                  None \<Rightarrow> Inl (KeyError model_key)
                | Some param_list \<Rightarrow>
                    for_each (build_classifier (lib\<lparr>now := c2\<rparr>) X_train y_train X_test y_test model_key)
                      param_list sp) (map fst (registry st')) (st', []))"
    unfolding keys
  proof (rule same_outcome_for_each [where Q = "same_search grid", OF _ start], goal_cases)
    case (1 k sp sp')
    show ?case
    proof (cases "map_of grid k")
      case None
      then show ?thesis by simp
    next
      case (Some ps)
      show ?thesis
        unfolding Some option.case
      proof (rule same_outcome_for_each_mem [where Q = "same_search grid", OF _ 1], goal_cases)
        case (1 p s s')
        from build_classifier_alike [OF 1(2) Some 1(1)] show ?case .
      qed
    qed
  qed
  show ?thesis
    unfolding run_grid_search_def
  proof (rule same_outcome_bind [OF loop], goal_cases)
    case (1 sp sp')
    then show ?case
      by (cases sp; cases sp') (auto simp: same_search_def same_rows_def dest: untimed_rows)
  qed
qed

lemma label_row_untimed:
  "(label_row (lib\<lparr>now := c\<rparr>) r)\<lparr>run_time := 0\<rparr> = label_row lib (r\<lparr>run_time := 0\<rparr>)"
  by (simp add: label_row_def split: option.splits)

lemma cross_validate_alike:
  assumes reg: "configured_alike grid (registry st) (registry st')"
  shows "same_outcome (\<lambda>out out'. map (\<lambda>r. r\<lparr>run_time := 0\<rparr>) (fst out) =
                                   map (\<lambda>r. r\<lparr>run_time := 0\<rparr>) (fst out') \<and>
                                   configured_alike grid (registry (snd out)) (registry (snd out')))
           (cross_validate (lib\<lparr>now := c1\<rparr>) temporal_splits features target degrees grid st)
           (cross_validate (lib\<lparr>now := c2\<rparr>) temporal_splits features target degrees grid st')"
proof -
  have start: "same_eval grid (st, []) (st', [])"
    using reg by (simp add: same_eval_def)
  have inner: "same_outcome (same_eval grid)
      (bind_err (expand_fold deg features target train1 test1)
         (\<lambda>(X_train, y_train, X_test, y_test, poly).
            bind_err (run_grid_search (lib\<lparr>now := c1\<rparr>) (NdArray X_train :: unit design) y_train
                        (NdArray X_test :: unit design) y_test wk deg grid (fst sc))
              (\<lambda>(model_perf, st1). Inr (st1, snd sc @ [model_perf]))))
      (bind_err (expand_fold deg features target train1 test1)
         (\<lambda>(X_train, y_train, X_test, y_test, poly).
            bind_err (run_grid_search (lib\<lparr>now := c2\<rparr>) (NdArray X_train :: unit design) y_train
                        (NdArray X_test :: unit design) y_test wk deg grid (fst sc'))
              (\<lambda>(model_perf, st1). Inr (st1, snd sc' @ [model_perf]))))"
    if sc: "same_eval grid sc sc'" for deg wk sc sc' and train1 :: "timestamp obs list" and test1 :: "timestamp obs list"
  proof (cases "expand_fold deg features target train1 test1")
    case (Inl e)
    then show ?thesis by (simp add: bind_err_def)
  next
    case (Inr res)
    obtain X_train y_train X_test y_test poly where
      res: "res = (X_train, y_train, X_test, y_test, poly)"
      by (cases res) auto
    have regs: "configured_alike grid (registry (fst sc)) (registry (fst sc'))"
      using sc by (simp add: same_eval_def)
    have "same_outcome (same_eval grid)
        (bind_err (run_grid_search (lib\<lparr>now := c1\<rparr>) (NdArray X_train :: unit design) y_train
                        (NdArray X_test :: unit design) y_test wk deg grid (fst sc))
              (\<lambda>(model_perf, st1). Inr (st1, snd sc @ [model_perf])))
        (bind_err (run_grid_search (lib\<lparr>now := c2\<rparr>) (NdArray X_train :: unit design) y_train
                        (NdArray X_test :: unit design) y_test wk deg grid (fst sc'))
              (\<lambda>(model_perf, st1). Inr (st1, snd sc' @ [model_perf])))"
    proof (rule same_outcome_bind [OF run_grid_search_alike [OF regs]], goal_cases)
      case (1 out out')
      then show ?case
        using sc by (cases out; cases out') (simp add: same_rows_def same_eval_def)
    qed
    then show ?thesis
      by (simp add: Inr res bind_err_def)
  qed
  have loop: "same_outcome (same_eval grid)
     (for_each
        (\<lambda>cv sc.
           bind_err (normalize_and_merge (normalize_lib (lib\<lparr>now := c1\<rparr>)) (train cv) (test cv))
             (\<lambda>(train1, test1).
                for_each
                  (\<lambda>deg sc1.
                     bind_err (expand_fold deg features target train1 test1)
                       (\<lambda>(X_train, y_train, X_test, y_test, poly).
                     bind_err (run_grid_search (lib\<lparr>now := c1\<rparr>) (NdArray X_train :: unit design) y_train
                                 (NdArray X_test :: unit design) y_test (test_week cv) deg grid
                                 (fst sc1))
                       (\<lambda>(model_perf, st1). Inr (st1, snd sc1 @ [model_perf]))))
                  degrees sc))
        temporal_splits (st, []))
     (for_each
        (\<lambda>cv sc.
           bind_err (normalize_and_merge (normalize_lib (lib\<lparr>now := c2\<rparr>)) (train cv) (test cv))
             (\<lambda>(train1, test1).
                for_each
                  (\<lambda>deg sc1.
                     bind_err (expand_fold deg features target train1 test1)
                       (\<lambda>(X_train, y_train, X_test, y_test, poly).
                     bind_err (run_grid_search (lib\<lparr>now := c2\<rparr>) (NdArray X_train :: unit design) y_train
                                 (NdArray X_test :: unit design) y_test (test_week cv) deg grid
                                 (fst sc1))
                       (\<lambda>(model_perf, st1). Inr (st1, snd sc1 @ [model_perf]))))
                  degrees sc))
        temporal_splits (st', []))"
  proof (rule same_outcome_for_each [where Q = "same_eval grid", OF _ start], goal_cases)
    case (1 cv sc sc')
    show ?case
    proof (cases "normalize_and_merge (normalize_lib lib) (train cv) (test cv)")
      case (Inl e)
      then show ?thesis by (simp add: bind_err_def)
    next
      case (Inr tt)
      obtain train1 test1 where tt: "tt = (train1, test1)" by (cases tt) auto
      show ?thesis
        using same_outcome_for_each [where Q = "same_eval grid", OF inner 1]
        by (simp add: Inr tt bind_err_def)
    qed
  qed
  show ?thesis
    unfolding cross_validate_def
  proof (rule same_outcome_bind [OF loop], goal_cases)
    case (1 sc sc')
    obtain s ev s' ev' where scs: "sc = (s, ev)" "sc' = (s', ev')"
      by (cases sc; cases sc') auto
    from 1 have ev: "map (map (\<lambda>r. r\<lparr>run_time := 0\<rparr>)) ev = map (map (\<lambda>r. r\<lparr>run_time := 0\<rparr>)) ev'"
      and al: "configured_alike grid (registry s) (registry s')"
      by (simp_all add: same_eval_def scs)
    then have empty: "(ev = []) = (ev' = [])"
      by (metis map_is_Nil_conv)
    have "map (\<lambda>r. r\<lparr>run_time := 0\<rparr>) (concat ev) = map (\<lambda>r. r\<lparr>run_time := 0\<rparr>) (concat ev')"
      using ev by (simp add: map_concat)
    then have "map (label_row lib) (map (\<lambda>r. r\<lparr>run_time := 0\<rparr>) (concat ev)) =
               map (label_row lib) (map (\<lambda>r. r\<lparr>run_time := 0\<rparr>) (concat ev'))"
      by simp
    then have "map (\<lambda>r. r\<lparr>run_time := 0\<rparr>) (map (label_row (lib\<lparr>now := c1\<rparr>)) (concat ev)) =
               map (\<lambda>r. r\<lparr>run_time := 0\<rparr>) (map (label_row (lib\<lparr>now := c2\<rparr>)) (concat ev'))"
      by (simp add: comp_def label_row_untimed)
    then show ?case
      using empty al by (simp add: scs)
  qed
qed

text \<open>
  A run leaves the registry configured alike to the registry it started from, when the
  grid sets the same parameter names in all entries of a family: an entry overwrites
  every value that an earlier entry has set.
\<close>

lemma update_twice: "AList.update k v (AList.update k w al) = AList.update k v al"
  by (induction al) auto

lemma update_swap_present:
  "k \<noteq> k' \<Longrightarrow> k \<in> fst ` set al \<Longrightarrow> k' \<in> fst ` set al \<Longrightarrow>
   AList.update k v (AList.update k' v' al) = AList.update k' v' (AList.update k v al)"
  by (induction al) (auto simp: update_twice)

lemma set_params_update_first:
  "k \<in> set (map fst p) \<Longrightarrow> k \<in> set (map fst (est_params m)) \<Longrightarrow>
   set_params (m\<lparr>est_params := AList.update k v (est_params m)\<rparr>) p = set_params m p"
proof (induction m p rule: set_params.induct)
  case (1 m)
  then show ?case by simp
next
  case (2 m k' v' kvs)
  let ?ps = "est_params m"
  show ?case
  proof (cases "k' \<in> set (map fst ?ps)")
    case False
    then show ?thesis using "2.prems"(2) by (auto simp: update_keys)
  next
    case present: True
    show ?thesis
    proof (cases "k' = k")
      case True
      then show ?thesis using present by (simp add: update_keys update_twice)
    next
      case False
      then have k_in: "k \<in> set (map fst kvs)" using "2.prems"(1) by auto
      let ?m1 = "m\<lparr>est_params := AList.update k' v' ?ps\<rparr>"
      have k_m1: "k \<in> set (map fst (est_params ?m1))"
        using "2.prems"(2) by (simp add: update_keys)
      have swap: "AList.update k' v' (AList.update k v ?ps) = AList.update k v (AList.update k' v' ?ps)"
        using False "2.prems"(2) present by (intro update_swap_present) auto
      have "set_params (m\<lparr>est_params := AList.update k v ?ps\<rparr>) ((k', v') # kvs) =
            set_params (?m1\<lparr>est_params := AList.update k v (est_params ?m1)\<rparr>) kvs"
        using present by (simp add: update_keys swap)
      also have "\<dots> = set_params ?m1 kvs"
        using "2.IH" [OF present k_in k_m1] .
      also have "\<dots> = set_params m ((k', v') # kvs)"
        using present by simp
      finally show ?thesis .
    qed
  qed
qed

lemma set_params_absorbed:
  "set_params m q = Inr c \<Longrightarrow> set (map fst q) \<subseteq> set (map fst p) \<Longrightarrow>
   set_params c p = set_params m p"
proof (induction m q rule: set_params.induct)
  case (1 m)
  then show ?case by simp
next
  case (2 m k v kvs)
  let ?m1 = "m\<lparr>est_params := AList.update k v (est_params m)\<rparr>"
  from "2.prems"(1) have present: "k \<in> set (map fst (est_params m))"
    and rest: "set_params ?m1 kvs = Inr c"
    by (auto split: if_splits)
  from "2.prems"(2) have k_p: "k \<in> set (map fst p)" and sub: "set (map fst kvs) \<subseteq> set (map fst p)"
    by auto
  have "set_params c p = set_params ?m1 p"
    using "2.IH" [OF present rest sub] .
  also have "\<dots> = set_params m p"
    using set_params_update_first [OF k_p present] .
  finally show ?case .
qed

lemma for_each_invariant:
  "(\<And>x s s'. x \<in> set xs \<Longrightarrow> I s \<Longrightarrow> body x s = Inr s' \<Longrightarrow> I s') \<Longrightarrow>
   I s \<Longrightarrow> for_each body xs s = Inr s' \<Longrightarrow> I s'"
proof (induction xs arbitrary: s)
  case Nil
  then show ?case by simp
next
  case (Cons x xs)
  from Cons.prems(3) obtain t where t: "body x s = Inr t" and rest: "for_each body xs t = Inr s'"
    by (cases "body x s") (auto simp: bind_err_def)
  have "I t" using Cons.prems(1) [OF _ Cons.prems(2) t] by simp
  show ?case
    by (rule Cons.IH [OF _ \<open>I t\<close> rest]) (rule Cons.prems(1), simp_all)
qed

lemma configured_alike_reconfigured:
  assumes alike: "configured_alike grid m m0"
    and e: "map_of m k = Some e"
    and same: "\<And>ps p. map_of grid k = Some ps \<Longrightarrow> p \<in> set ps \<Longrightarrow> set_params c p = set_params e p"
  shows "configured_alike grid (AList.update k c m) m0"
proof -
  have k: "k \<in> set (map fst m)"
    using e by (metis map_of_eq_None_iff option.distinct(1) set_map)
  then have keys: "map fst (AList.update k c m) = map fst m"
    by (simp add: update_keys)
  show ?thesis
    unfolding configured_alike_def keys
  proof (intro conjI ballI)
    show "map fst m = map fst m0" using alike by (rule configured_alike_keys)
  next
    fix k' p
    assume k': "k' \<in> set (map fst m)"
      and p: "p \<in> set (case map_of grid k' of None \<Rightarrow> [] | Some param_list \<Rightarrow> param_list)"
    from alike k' p
    have old: "map_option (\<lambda>m. set_params m p) (map_of m k') =
               map_option (\<lambda>m. set_params m p) (map_of m0 k')"
      unfolding configured_alike_def by blast
    show "map_option (\<lambda>m. set_params m p) (map_of (AList.update k c m) k') =
          map_option (\<lambda>m. set_params m p) (map_of m0 k')"
    proof (cases "k' = k")
      case False
      then show ?thesis using old by (simp add: update_conv')
    next
      case True
      from p True obtain ps where ps: "map_of grid k = Some ps" "p \<in> set ps"
        by (cases "map_of grid k") auto
      from same [OF ps] old e True show ?thesis by (simp add: update_conv')
    qed
  qed
qed

lemma uniform_grid_names:
  "uniform_grid grid \<Longrightarrow> map_of grid k = Some ps \<Longrightarrow> p \<in> set ps \<Longrightarrow> q \<in> set ps \<Longrightarrow>
   set (map fst p) = set (map fst q)"
  unfolding uniform_grid_def by (drule map_of_SomeD) (metis snd_conv)

lemma fit_and_predict_leaves_alike:
  assumes uni: "uniform_grid grid"
    and grid: "map_of grid model_key = Some ps" "param \<in> set ps"
    and alike: "configured_alike grid (registry st) m0"
    and run: "fit_and_predict lib X_train y_train X_test model_key param st = Inr (predictions, c, st1)"
  shows "configured_alike grid (registry st1) m0"
proof -
  from run obtain e where e: "map_of (registry st) model_key = Some e"
    by (cases "map_of (registry st) model_key") (auto simp: fit_and_predict_def)
  from run e have conf: "set_params e param = Inr c"
    and st1: "registry st1 = AList.update model_key c (registry st)"
    by (auto simp: fit_and_predict_def bind_err_def split: sum.splits)
  have "set_params c p = set_params e p" if "map_of grid model_key = Some ps'" "p \<in> set ps'" for ps' p
  proof -
    from that grid have "p \<in> set ps" by simp
    from uniform_grid_names [OF uni grid(1) grid(2) this]
    have "set (map fst param) \<subseteq> set (map fst p)" by simp
    from set_params_absorbed [OF conf this] show ?thesis .
  qed
  from configured_alike_reconfigured [OF alike e this] show ?thesis
    by (simp add: st1)
qed

lemma build_classifier_leaves_alike:
  assumes uni: "uniform_grid grid"
    and grid: "map_of grid model_key = Some ps" "param \<in> set ps"
    and alike: "configured_alike grid (registry (fst sp)) m0"
    and run: "build_classifier lib X_train y_train X_test y_test model_key param sp = Inr sp1"
  shows "configured_alike grid (registry (fst sp1)) m0"
proof -
  from run obtain predictions c st1 where
    fp: "fit_and_predict lib X_train y_train X_test model_key param
           ((fst sp)\<lparr>ticks := ticks (fst sp) + 1\<rparr>) = Inr (predictions, c, st1)"
    and reg: "registry (fst sp1) = registry st1"
    by (auto simp: build_classifier_def Let_def bind_err_def split: sum.splits)
  have "configured_alike grid (registry ((fst sp)\<lparr>ticks := ticks (fst sp) + 1\<rparr>)) m0"
    using alike by simp
  from fit_and_predict_leaves_alike [OF uni grid this fp] show ?thesis
    by (simp add: reg)
qed

lemma run_grid_search_leaves_alike:
  assumes uni: "uniform_grid grid"
    and alike: "configured_alike grid (registry st) m0"
    and run: "run_grid_search lib X_train y_train X_test y_test wk deg grid st = Inr (rows, st1)"
  shows "configured_alike grid (registry st1) m0"
proof -
  let ?body = "\<lambda>model_key sp. case map_of grid model_key of
                  None \<Rightarrow> Inl (KeyError model_key)
                | Some param_list \<Rightarrow>
                    for_each (build_classifier lib X_train y_train X_test y_test model_key)
                      param_list sp"
  from run obtain mp where
    loop: "for_each ?body (map fst (registry st)) (st, []) = Inr (st1, mp)"
    by (auto simp: run_grid_search_def bind_err_def split: sum.splits)
  have "configured_alike grid (registry (fst (st1, mp))) m0"
  proof (rule for_each_invariant [where I = "\<lambda>sp. configured_alike grid (registry (fst sp)) m0",
        OF _ _ loop], goal_cases)
    case (1 k s s')
    from 1(3) obtain ps where ps: "map_of grid k = Some ps"
      and inner: "for_each (build_classifier lib X_train y_train X_test y_test k) ps s = Inr s'"
      by (cases "map_of grid k") auto
    show ?case
    proof (rule for_each_invariant [where I = "\<lambda>sp. configured_alike grid (registry (fst sp)) m0",
          OF _ 1(2) inner], goal_cases)
      case (1 p t t')
      from build_classifier_leaves_alike [OF uni ps 1(1) 1(2) 1(3)] show ?case .
    qed
  next
    case 2
    show ?case using alike by simp
  qed
  then show ?thesis by simp
qed

lemma cross_validate_leaves_alike:
  assumes uni: "uniform_grid grid"
    and run: "cross_validate lib temporal_splits features target degrees grid st = Inr (rows, st1)"
  shows "configured_alike grid (registry st1) (registry st)"
proof -
  let ?I = "\<lambda>sc :: run_state \<times> grid_row list list.
              configured_alike grid (registry (fst sc)) (registry st)"
  let ?deg = "\<lambda>cv (train1 :: timestamp obs list) (test1 :: timestamp obs list) deg sc1.
     bind_err (expand_fold deg features target train1 test1)
       (\<lambda>(X_train, y_train, X_test, y_test, poly).
     bind_err (run_grid_search lib (NdArray X_train :: unit design) y_train
                 (NdArray X_test :: unit design) y_test (test_week cv) deg grid (fst sc1))
       (\<lambda>(model_perf, st1). Inr (st1, snd sc1 @ [model_perf])))"
  let ?fold = "\<lambda>cv sc.
     bind_err (normalize_and_merge (normalize_lib lib) (train cv) (test cv))
       (\<lambda>(train1, test1). for_each (?deg cv train1 test1) degrees sc)"
  from run obtain cv_eval where
    loop: "for_each ?fold temporal_splits (st, []) = Inr (st1, cv_eval)"
    by (auto simp: cross_validate_def bind_err_def split: sum.splits if_splits)
  have deg_step: "?I sc'" if "?I sc" "?deg cv train1 test1 deg sc = Inr sc'"
    for cv train1 test1 deg sc sc'
  proof -
    from that(2) obtain X_train y_train X_test y_test poly model_perf s1 where
      rgs: "run_grid_search lib (NdArray X_train :: unit design) y_train
              (NdArray X_test :: unit design) y_test (test_week cv) deg grid (fst sc) =
            Inr (model_perf, s1)"
      and sc': "sc' = (s1, snd sc @ [model_perf])"
      by (auto simp: bind_err_def split: sum.splits)
    from run_grid_search_leaves_alike [OF uni that(1) rgs] show ?thesis
      by (simp add: sc')
  qed
  have "?I (st1, cv_eval)"
  proof (rule for_each_invariant [where I = ?I, OF _ _ loop], goal_cases)
    case (1 cv s s')
    from 1(3) obtain train1 test1 where
      inner: "for_each (?deg cv train1 test1) degrees s = Inr s'"
      by (auto simp: bind_err_def split: sum.splits)
    show ?case
      by (rule for_each_invariant [where I = ?I, OF _ 1(2) inner]) (rule deg_step)
  next
    case 2
    show ?case by (simp add: configured_alike_refl)
  qed
  then show ?thesis by simp
qed

lemma uniform_grid_GRID: "uniform_grid GRID"
  by (simp add: uniform_grid_def GRID_def alphas_def)

text \<open>
  So with such a grid a second run, started from the registry that the first run left,
  returns the table of the first run, but for \<^verbatim>\<open>run_time\<close>.
\<close>

lemma cross_validate_twice:
  assumes uni: "uniform_grid grid"
    and first: "cross_validate (lib\<lparr>now := clock1\<rparr>) temporal_splits features target degrees grid st =
                  Inr (rows, st1)"
  shows "map_sum id (\<lambda>out. map (\<lambda>r. r\<lparr>run_time := 0\<rparr>) (fst out))
           (cross_validate (lib\<lparr>now := clock2\<rparr>) temporal_splits features target degrees grid st1) =
         Inr (map (\<lambda>r. r\<lparr>run_time := 0\<rparr>) rows)"
proof -
  have "configured_alike grid (registry st1) (registry st)"
    using uni first by (rule cross_validate_leaves_alike)
  from cross_validate_alike [OF this, where lib = lib and ?c1.0 = clock2 and ?c2.0 = clock1
      and temporal_splits = temporal_splits and features = features and target = target
      and degrees = degrees]
  show ?thesis
    unfolding first
    by (cases "cross_validate (lib\<lparr>now := clock2\<rparr>) temporal_splits features target degrees grid st1")
       simp_all
qed

text \<open>Evaluation rules of the examples.\<close>

lemmas demo_simps =
  run_grid_search_def build_classifier_def fit_and_predict_def evaluate_model_def
  mean_squared_error_def mean_absolute_error_def squared_errors_def absolute_errors_def
  binary64_ops_def bind_err_def demo_lib_def two_models_def
  demo_str_model_def str_int_def digit_char_def

lemmas cv_simps =
  cross_validate_def normalize_and_merge_def keep_scale_def norm_features_def get_col_def
  drop_and_merge_def merge_cols_def drop_num_cols_def set_num_col_def expand_fold_def
  fit_transform_def poly_fit_def poly_transform_def PolynomialFeatures_def expand_row_def
  column_def label_row_def word_char_def demo_str_params_def wk_row_def one_fold_def

text \<open>
  C7, as the claim states it, fails: \<^verbatim>\<open>fit_and_predict\<close> configures the shared estimator
  objects of \<^verbatim>\<open>MODELS\<close> in place, so a second run on the same arguments starts from the
  configuration that the first run left. With the grid \<open>widening_grid\<close> the first run
  returns two rows for \<open>Ridge\<close> and leaves its object with \<^verbatim>\<open>fit_intercept=False\<close>; in the
  second run both entries of the grid configure the object alike, the second result
  replaces the first under the same key, and the table has one row for \<open>Ridge\<close>.
\<close>

theorem cross_validate_second_run_differs:
  "map_sum id (\<lambda>out. (map model (fst out), snd out))
     (cross_validate demo_lib one_fold [''lag_prisoner_cases'', ''state_ohio'']
        ''total_prisoner_cases'' [1] widening_grid two_models) =
     Inr ([Some ''Ridge degree_1 {alpha: 7}'',
           Some ''Ridge degree_1 {alpha: 7, fit_intercept: False}'',
           Some ''Lasso degree_1 {alpha: 10}''],
          \<lparr>registry =
             [(''Ridge'', \<lparr>est_class = ''Ridge'',
                           est_params = [(''alpha'', PInt 7), (''fit_intercept'', PBool False)]\<rparr>),
              (''Lasso'', \<lparr>est_class = ''Lasso'',
                           est_params = [(''alpha'', PInt 10), (''fit_intercept'', PBool True)]\<rparr>)],
           ticks = 6\<rparr>) \<and>
   map_sum id (\<lambda>out. map model (fst out))
     (cross_validate demo_lib one_fold [''lag_prisoner_cases'', ''state_ohio'']
        ''total_prisoner_cases'' [1] widening_grid
        \<lparr>registry =
           [(''Ridge'', \<lparr>est_class = ''Ridge'',
                         est_params = [(''alpha'', PInt 7), (''fit_intercept'', PBool False)]\<rparr>),
            (''Lasso'', \<lparr>est_class = ''Lasso'',
                         est_params = [(''alpha'', PInt 10), (''fit_intercept'', PBool True)]\<rparr>)],
         ticks = 6\<rparr>) =
     Inr [Some ''Ridge degree_1 {alpha: 7, fit_intercept: False}'',
          Some ''Lasso degree_1 {alpha: 10}'']"
  by (simp add: cv_simps demo_simps widening_grid_def upt_rec)

text \<open>
  C7 (amended): for every fold sequence, feature list, target, degree list and grid, and
  for every model family given as a function of configuration and data, two runs of
  \<^verbatim>\<open>cross_validate\<close> that start from registries configured alike for the grid, and differ
  in the readings of the clock (and in the number of earlier readings), end alike: both
  raise the same exception, or both return tables with the same rows in the same order,
  equal in every column but \<^verbatim>\<open>run_time\<close>. Two runs that start from the same registry are
  such runs (\<open>configured_alike_refl\<close>), and so are a run and the run that follows it when
  the grid sets the same parameter names in all entries of a family, as \<^verbatim>\<open>GRID\<close> does
  (\<open>cross_validate_leaves_alike\<close>, \<open>uniform_grid_GRID\<close>).
\<close>

theorem cross_validate_reproducible:
  assumes "configured_alike grid models1 models2"
  shows "map_sum id (\<lambda>out. map (\<lambda>r. r\<lparr>run_time := 0\<rparr>) (fst out))
     (cross_validate (lib\<lparr>now := clock1\<rparr>) temporal_splits features target degrees grid
        \<lparr>registry = models1, ticks = t1\<rparr>) =
   map_sum id (\<lambda>out. map (\<lambda>r. r\<lparr>run_time := 0\<rparr>) (fst out))
     (cross_validate (lib\<lparr>now := clock2\<rparr>) temporal_splits features target degrees grid
        \<lparr>registry = models2, ticks = t2\<rparr>)"
proof -
  have "configured_alike grid (registry \<lparr>registry = models1, ticks = t1\<rparr>)
          (registry \<lparr>registry = models2, ticks = t2\<rparr>)"
    using assms by simp
  from cross_validate_alike [OF this, where lib = lib and ?c1.0 = clock1 and ?c2.0 = clock2
      and temporal_splits = temporal_splits and features = features and target = target
      and degrees = degrees]
  show ?thesis
    by (cases "cross_validate (lib\<lparr>now := clock1\<rparr>) temporal_splits features target degrees grid
                 \<lparr>registry = models1, ticks = t1\<rparr>";
        cases "cross_validate (lib\<lparr>now := clock2\<rparr>) temporal_splits features target degrees grid
                 \<lparr>registry = models2, ticks = t2\<rparr>") simp_all
qed

theorem cross_validate_reproducible_witness:
  "configured_alike small_grid (registry two_models) after_small_grid \<and>
   map_sum id (\<lambda>out. (map (\<lambda>r. (model r, mse r, run_time r)) (fst out), snd out))
     (cross_validate (demo_lib\<lparr>now := \<lambda>n. real n\<rparr>) one_fold
        [''lag_prisoner_cases'', ''state_ohio''] ''total_prisoner_cases'' [1] small_grid
        two_models) =
     Inr ([(Some ''Ridge degree_1 {alpha: 1}'', 49, 1), (Some ''Ridge degree_1 {alpha: 10}'', 49, 1),
           (Some ''Lasso degree_1 {alpha: 10}'', 49, 1)],
          \<lparr>registry = after_small_grid, ticks = 6\<rparr>) \<and>
   map_sum id (\<lambda>out. map (\<lambda>r. (model r, mse r, run_time r)) (fst out))
     (cross_validate (demo_lib\<lparr>now := \<lambda>n. 3 * real n\<rparr>) one_fold
        [''lag_prisoner_cases'', ''state_ohio''] ''total_prisoner_cases'' [1] small_grid
        \<lparr>registry = after_small_grid, ticks = 6\<rparr>) =
     Inr [(Some ''Ridge degree_1 {alpha: 1}'', 49, 3), (Some ''Ridge degree_1 {alpha: 10}'', 49, 3),
          (Some ''Lasso degree_1 {alpha: 10}'', 49, 3)] \<and>
   map_sum id (\<lambda>out. map (\<lambda>r. r\<lparr>run_time := 0\<rparr>) (fst out))
     (cross_validate (demo_lib\<lparr>now := \<lambda>n. real n\<rparr>) one_fold
        [''lag_prisoner_cases'', ''state_ohio''] ''total_prisoner_cases'' [1] small_grid
        two_models) =
   map_sum id (\<lambda>out. map (\<lambda>r. r\<lparr>run_time := 0\<rparr>) (fst out))
     (cross_validate (demo_lib\<lparr>now := \<lambda>n. 3 * real n\<rparr>) one_fold
        [''lag_prisoner_cases'', ''state_ohio''] ''total_prisoner_cases'' [1] small_grid
        \<lparr>registry = after_small_grid, ticks = 6\<rparr>)"
proof -
  have alike: "configured_alike small_grid (registry two_models) after_small_grid"
    by (simp add: configured_alike_def small_grid_def two_models_def after_small_grid_def)
  have same: "map_sum id (\<lambda>out. map (\<lambda>r. r\<lparr>run_time := 0\<rparr>) (fst out))
     (cross_validate (demo_lib\<lparr>now := \<lambda>n. real n\<rparr>) one_fold
        [''lag_prisoner_cases'', ''state_ohio''] ''total_prisoner_cases'' [1] small_grid
        two_models) =
   map_sum id (\<lambda>out. map (\<lambda>r. r\<lparr>run_time := 0\<rparr>) (fst out))
     (cross_validate (demo_lib\<lparr>now := \<lambda>n. 3 * real n\<rparr>) one_fold
        [''lag_prisoner_cases'', ''state_ohio''] ''total_prisoner_cases'' [1] small_grid
        \<lparr>registry = after_small_grid, ticks = 6\<rparr>)"
    using cross_validate_reproducible [OF alike, where lib = demo_lib and ?clock1.0 = "\<lambda>n. real n"
        and ?clock2.0 = "\<lambda>n. 3 * real n" and temporal_splits = one_fold
        and features = "[''lag_prisoner_cases'', ''state_ohio'']"
        and target = "''total_prisoner_cases''" and degrees = "[1]"
        and ?t1.0 = 0 and ?t2.0 = 6]
    by (simp add: two_models_def)
  have first: "map_sum id (\<lambda>out. (map (\<lambda>r. (model r, mse r, run_time r)) (fst out), snd out))
     (cross_validate (demo_lib\<lparr>now := \<lambda>n. real n\<rparr>) one_fold
        [''lag_prisoner_cases'', ''state_ohio''] ''total_prisoner_cases'' [1] small_grid
        two_models) =
     Inr ([(Some ''Ridge degree_1 {alpha: 1}'', 49, 1), (Some ''Ridge degree_1 {alpha: 10}'', 49, 1),
           (Some ''Lasso degree_1 {alpha: 10}'', 49, 1)],
          \<lparr>registry = after_small_grid, ticks = 6\<rparr>)"
    by (simp add: cv_simps demo_simps small_grid_def after_small_grid_def upt_rec)
       (simp_all add: binary64_eval)
  have second: "map_sum id (\<lambda>out. map (\<lambda>r. (model r, mse r, run_time r)) (fst out))
     (cross_validate (demo_lib\<lparr>now := \<lambda>n. 3 * real n\<rparr>) one_fold
        [''lag_prisoner_cases'', ''state_ohio''] ''total_prisoner_cases'' [1] small_grid
        \<lparr>registry = after_small_grid, ticks = 6\<rparr>) =
     Inr [(Some ''Ridge degree_1 {alpha: 1}'', 49, 3), (Some ''Ridge degree_1 {alpha: 10}'', 49, 3),
          (Some ''Lasso degree_1 {alpha: 10}'', 49, 3)]"
    by (simp add: cv_simps demo_simps small_grid_def after_small_grid_def upt_rec)
       (simp_all add: binary64_eval)
  from alike first second same show ?thesis by (intro conjI)
qed

subsection \<open>Grid Search Runner\<close>

lemma set_first_occurrences [simp]: "set (first_occurrences xs) = set xs"
  by (induction xs) auto

lemma distinct_first_occurrences [simp]: "distinct (first_occurrences xs)"
  by (induction xs) auto

lemma filter_first_occurrences:
  "filter P (first_occurrences xs) = first_occurrences (filter P xs)"
proof (induction xs)
  case Nil
  then show ?case by simp
next
  case (Cons x xs)
  have swap: "filter P (filter (\<lambda>y. y \<noteq> x) (first_occurrences xs)) =
        filter (\<lambda>y. y \<noteq> x) (first_occurrences (filter P xs))"
  proof -
    have "filter P (filter (\<lambda>y. y \<noteq> x) (first_occurrences xs)) =
          filter (\<lambda>y. y \<noteq> x) (filter P (first_occurrences xs))"
      by (simp add: conj_commute)
    then show ?thesis by (simp only: Cons.IH)
  qed
  show ?case
  proof (cases "P x")
    case True
    then show ?thesis using swap by simp
  next
    case False
    then have "x \<notin> set (first_occurrences (filter P xs))" by simp
    then have "filter (\<lambda>y. y \<noteq> x) (first_occurrences (filter P xs)) =
               first_occurrences (filter P xs)"
      by (simp add: filter_id_conv) blast
    then show ?thesis using False swap by simp
  qed
qed

lemma first_occurrences_distinct: "distinct xs \<Longrightarrow> first_occurrences xs = xs"
  by (induction xs) (auto simp: filter_id_conv)

lemma first_occurrences_append_seen:
  "k \<in> set xs \<Longrightarrow> first_occurrences (xs @ k # ys) = first_occurrences (xs @ ys)"
proof (induction xs)
  case Nil
  then show ?case by simp
next
  case (Cons x xs)
  show ?case
  proof (cases "k = x")
    case True
    have "filter (\<lambda>y. y \<noteq> x) (first_occurrences (xs @ x # ys)) =
          filter (\<lambda>y. y \<noteq> x) (first_occurrences (xs @ ys))"
      by (simp add: filter_first_occurrences)
    then show ?thesis using True by simp
  next
    case False
    with Cons show ?thesis by simp
  qed
qed

lemma length_first_occurrences:
  "(length (first_occurrences xs) = length xs) = distinct xs"
proof
  assume "length (first_occurrences xs) = length xs"
  then have "card (set xs) = length xs"
    using distinct_card [OF distinct_first_occurrences [of xs]] by simp
  then show "distinct xs" by (rule card_distinct)
next
  assume "distinct xs"
  then show "length (first_occurrences xs) = length xs"
    by (simp add: first_occurrences_distinct)
qed

lemma keys_update:
  "map fst (AList.update k v al) = (if k \<in> set (map fst al) then map fst al else map fst al @ [k])"
  by (induction al) auto

lemma for_each_append:
  "for_each body (xs @ ys) s = bind_err (for_each body xs s) (for_each body ys)"
  by (induction xs arbitrary: s) (auto simp: bind_err_def split: sum.splits)

lemma for_each_map: "for_each body (map f xs) s = for_each (\<lambda>x. body (f x)) xs s"
  by (induction xs arbitrary: s) (auto simp: bind_err_def split: sum.splits)

lemma grid_loop_flat:
  "for_each (\<lambda>k sp. case map_of grid k of
                       None \<Rightarrow> Inl (KeyError k)
                     | Some ps \<Rightarrow> for_each (body k) ps sp) keys sp = Inr out \<Longrightarrow>
   for_each (\<lambda>kp. body (fst kp) (snd kp))
     (concat (map (\<lambda>k. map (Pair k) (case map_of grid k of None \<Rightarrow> [] | Some ps \<Rightarrow> ps)) keys))
     sp = Inr out"
proof (induction keys arbitrary: sp)
  case Nil
  then show ?case by simp
next
  case (Cons k keys)
  from Cons.prems obtain ps mid where
    ps: "map_of grid k = Some ps" and
    mid: "for_each (body k) ps sp = Inr mid" and
    rest: "for_each (\<lambda>k sp. case map_of grid k of
                       None \<Rightarrow> Inl (KeyError k)
                     | Some ps \<Rightarrow> for_each (body k) ps sp) keys mid = Inr out"
    by (auto simp: bind_err_def split: option.splits sum.splits)
  have "for_each (\<lambda>kp. body (fst kp) (snd kp)) (map (Pair k) ps) sp = Inr mid"
    using mid by (simp add: for_each_map)
  then show ?case
    using Cons.IH [OF rest] by (simp add: ps for_each_append bind_err_def)
qed

lemma build_classifier_step:
  assumes "build_classifier lib X_train y_train X_test y_test k p (st, mp) = Inr (st1, mp1)"
  shows "\<exists>shared c entry.
           map_of (registry st) k = Some shared \<and> set_params shared p = Inr c \<and>
           registry st1 = AList.update k c (registry st) \<and>
           mp1 = AList.update (str_model lib c) entry mp \<and> parameters entry = p"
  using assms
  by (auto simp: build_classifier_def fit_and_predict_def bind_err_def Let_def
      split: option.splits sum.splits prod.splits)

lemma flat_loop_rows:
  assumes "for_each (\<lambda>kp. build_classifier lib X_train y_train X_test y_test (fst kp) (snd kp))
             combos (st, mp) = Inr (st', mp')"
    and "distinct (map fst mp)"
  shows "length (configured_instances (registry st) combos) = length combos \<and>
         map fst mp' =
           first_occurrences
             (map fst mp @ map (str_model lib) (configured_instances (registry st) combos)) \<and>
         (distinct (map fst mp @ map (str_model lib) (configured_instances (registry st) combos)) \<longrightarrow>
            map (\<lambda>kp. (fst kp, parameters (snd kp))) mp' =
              map (\<lambda>kp. (fst kp, parameters (snd kp))) mp @
              map (\<lambda>ck. (str_model lib (fst ck), snd (snd ck)))
                (zip (configured_instances (registry st) combos) combos))"
  using assms
proof (induction combos arbitrary: st mp)
  case Nil
  then show ?case by (simp add: first_occurrences_distinct)
next
  case (Cons kp combos)
  obtain k p where kp: "kp = (k, p)" by (cases kp) auto
  from Cons.prems(1) obtain st1 mp1 where
    step: "build_classifier lib X_train y_train X_test y_test k p (st, mp) = Inr (st1, mp1)" and
    rest: "for_each (\<lambda>kp. build_classifier lib X_train y_train X_test y_test (fst kp) (snd kp))
             combos (st1, mp1) = Inr (st', mp')"
    by (auto simp: kp bind_err_def split: sum.splits)
  from build_classifier_step [OF step] obtain shared c entry where
    shared: "map_of (registry st) k = Some shared" and
    conf: "set_params shared p = Inr c" and
    reg1: "registry st1 = AList.update k c (registry st)" and
    mp1: "mp1 = AList.update (str_model lib c) entry mp" and
    entry: "parameters entry = p"
    by blast
  let ?later = "configured_instances (registry st1) combos"
  have confs: "configured_instances (registry st) (kp # combos) = c # ?later"
    by (simp add: kp shared conf reg1)
  have dist1: "distinct (map fst mp1)"
    using Cons.prems(2) by (simp add: mp1 distinct_update)
  note IH = Cons.IH [OF rest dist1]
  have keys1: "first_occurrences (map fst mp1 @ map (str_model lib) ?later) =
               first_occurrences (map fst mp @ str_model lib c # map (str_model lib) ?later)"
  proof (cases "str_model lib c \<in> set (map fst mp)")
    case True
    then show ?thesis
      by (simp add: mp1 keys_update first_occurrences_append_seen)
  next
    case False
    then show ?thesis by (simp add: mp1 keys_update)
  qed
  have pairs: "map (\<lambda>kp. (fst kp, parameters (snd kp))) mp' =
              map (\<lambda>kp. (fst kp, parameters (snd kp))) mp @
              map (\<lambda>ck. (str_model lib (fst ck), snd (snd ck))) (zip (c # ?later) (kp # combos))"
    if d: "distinct (map fst mp @ str_model lib c # map (str_model lib) ?later)"
  proof -
    from d have new: "str_model lib c \<notin> set (map fst mp)" by auto
    then have mp1_eq: "mp1 = mp @ [(str_model lib c, entry)]"
      unfolding mp1 by (induction mp) auto
    have "distinct (map fst mp1 @ map (str_model lib) ?later)"
      using d by (simp add: mp1_eq)
    with IH have "map (\<lambda>kp. (fst kp, parameters (snd kp))) mp' =
              map (\<lambda>kp. (fst kp, parameters (snd kp))) mp1 @
              map (\<lambda>ck. (str_model lib (fst ck), snd (snd ck))) (zip ?later combos)"
      by blast
    then show ?thesis
      by (simp add: mp1_eq entry kp)
  qed
  show ?case
    unfolding confs using IH keys1 pairs by simp
qed

lemma set_params_class: "set_params m p = Inr c \<Longrightarrow> est_class c = est_class m"
  by (induction m p rule: set_params.induct) (auto split: if_splits)

lemma set_params_other:
  "set_params m p = Inr c \<Longrightarrow> n \<notin> fst ` set p \<Longrightarrow>
   map_of (est_params c) n = map_of (est_params m) n"
  by (induction m p rule: set_params.induct) (auto simp: update_conv' split: if_splits)

lemma set_params_assigned:
  "set_params m p = Inr c \<Longrightarrow> distinct (map fst p) \<Longrightarrow> (n, v) \<in> set p \<Longrightarrow>
   map_of (est_params c) n = Some v"
proof (induction m p rule: set_params.induct)
  case (1 m)
  then show ?case by simp
next
  case (2 m k v' kvs)
  let ?m1 = "m\<lparr>est_params := AList.update k v' (est_params m)\<rparr>"
  from "2.prems"(1) have valid: "k \<in> set (map fst (est_params m))"
    and rest: "set_params ?m1 kvs = Inr c"
    by (auto split: if_splits)
  show ?case
  proof (cases "(n, v) \<in> set kvs")
    case True
    with "2.IH" [OF valid rest] "2.prems"(2) show ?thesis by simp
  next
    case False
    with "2.prems"(3) have nv: "n = k" "v = v'" by auto
    have "k \<notin> fst ` set kvs" using "2.prems"(2) by auto
    from set_params_other [OF rest this] show ?thesis
      by (simp add: nv update_conv')
  qed
qed

lemma classes_update:
  "map_of models k = Some m \<Longrightarrow> est_class c = est_class m \<Longrightarrow>
   classes (AList.update k c models) = classes models"
  by (induction models) (auto simp: classes_def)

lemma map_of_classes:
  "map_of (classes models) k = map_option est_class (map_of models k)"
  by (induction models) (auto simp: classes_def)

lemma configured_instances_fit:
  assumes "classes models = classes models0"
    and "length (configured_instances models combos) = length combos"
  shows "list_all2 (fits models0) combos (configured_instances models combos)"
  using assms
proof (induction combos arbitrary: models)
  case Nil
  then show ?case by simp
next
  case (Cons kp combos)
  obtain k p where kp: "kp = (k, p)" by (cases kp) auto
  from Cons.prems(2) obtain shared c where
    shared: "map_of models k = Some shared" and conf: "set_params shared p = Inr c"
    by (auto simp: kp split: option.splits sum.splits)
  have cls: "est_class c = est_class shared"
    using conf by (rule set_params_class)
  have same: "classes (AList.update k c models) = classes models0"
    using classes_update [OF shared cls] Cons.prems(1) by simp
  have len: "length (configured_instances (AList.update k c models) combos) = length combos"
    using Cons.prems(2) by (simp add: kp shared conf)
  have "fits models0 kp c"
    using Cons.prems(1) [symmetric] shared cls set_params_assigned [OF conf]
    by (auto simp: fits_def kp map_of_classes)
  with Cons.IH [OF same len] show ?case
    by (simp add: kp shared conf)
qed

lemma list_all2_distinct:
  assumes "list_all2 R xs ys" and "distinct xs"
    and "\<And>x x' y y'. x \<in> set xs \<Longrightarrow> x' \<in> set xs \<Longrightarrow> x \<noteq> x' \<Longrightarrow> R x y \<Longrightarrow> R x' y' \<Longrightarrow> y \<noteq> y'"
  shows "distinct ys"
  using assms
proof (induction xs ys rule: list_all2_induct)
  case Nil
  then show ?case by simp
next
  case (Cons x xs y ys)
  have "y \<notin> set ys"
  proof
    assume "y \<in> set ys"
    then obtain x' where x': "x' \<in> set xs" "R x' y"
      using Cons.hyps(2) by (metis in_set_conv_nth list_all2_conv_all_nth)
    with Cons.prems(1) have "x \<noteq> x'" by auto
    from Cons.prems(2) [OF _ _ this Cons.hyps(1) x'(2)] x'(1) show False by simp
  qed
  moreover have "distinct ys"
  proof (rule Cons.IH)
    show "distinct xs" using Cons.prems(1) by simp
    show "y \<noteq> y'" if "x \<in> set xs" "x' \<in> set xs" "x \<noteq> x'" "R x y" "R x' y'" for x x' y y'
      using Cons.prems(2) [of x x' y y'] that by simp
  qed
  ultimately show ?case by simp
qed

lemma distinct_combinations:
  "distinct keys \<Longrightarrow> (\<And>k. k \<in> set keys \<Longrightarrow> distinct (f k)) \<Longrightarrow>
   distinct (concat (map (\<lambda>k. map (Pair k) (f k)) keys))"
proof (induction keys)
  case Nil
  then show ?case by simp
next
  case (Cons k keys)
  have "distinct (map (Pair k) (f k))"
    using Cons.prems(2) [of k] by (simp add: distinct_map inj_on_def)
  moreover have "distinct (concat (map (\<lambda>k. map (Pair k) (f k)) keys))"
    using Cons by simp
  moreover have "set (map (Pair k) (f k)) \<inter> set (concat (map (\<lambda>k. map (Pair k) (f k)) keys)) = {}"
    using Cons.prems(1) by auto
  ultimately show ?case by simp
qed

lemma same_names_differ:
  assumes "map fst p = map fst q" and "p \<noteq> q"
  shows "\<exists>n v w. (n, v) \<in> set p \<and> (n, w) \<in> set q \<and> v \<noteq> w"
  using assms
proof (induction p arbitrary: q)
  case Nil
  then show ?case by simp
next
  case (Cons a p)
  then obtain b q' where q: "q = b # q'" by (cases q) auto
  show ?case
  proof (cases "snd a = snd b")
    case True
    with Cons.prems q have "map fst p = map fst q'" "p \<noteq> q'"
      by (auto simp: prod_eq_iff)
    from Cons.IH [OF this] show ?thesis by (auto simp: q)
  next
    case False
    with Cons.prems q show ?thesis
      by (intro exI [of _ "fst a"] exI [of _ "snd a"] exI [of _ "snd b"]) (auto simp: prod_eq_iff)
  qed
qed

lemma in_combinations:
  "kp \<in> set (combinations models grid) \<Longrightarrow>
   \<exists>km ps. km \<in> set models \<and> fst km = fst kp \<and> map_of grid (fst kp) = Some ps \<and> snd kp \<in> set ps"
proof -
  assume "kp \<in> set (combinations models grid)"
  then obtain km where km: "km \<in> set models"
    and mem: "kp \<in> set (map (Pair (fst km))
                 (case map_of grid (fst km) of None \<Rightarrow> [] | Some ps \<Rightarrow> ps))"
    by (auto simp: combinations_def)
  show ?thesis
  proof (cases "map_of grid (fst km)")
    case None
    with mem show ?thesis by simp
  next
    case (Some ps)
    with mem km show ?thesis
      by (intro exI [of _ km] exI [of _ ps]) auto
  qed
qed

lemma map_of_distinct_values:
  assumes "map_of al k = Some v" and "map_of al k' = Some v" and "distinct (map snd al)"
  shows "k = k'"
proof -
  have "(k, v) \<in> set al" "(k', v) \<in> set al"
    using assms(1,2) by (auto dest: map_of_SomeD)
  moreover have "inj_on snd (set al)"
    using assms(3) by (simp add: distinct_map)
  ultimately have "(k, v) = (k', v)"
    by (intro inj_onD [of snd "set al"]) simp_all
  then show ?thesis by simp
qed

lemma same_names_distinct:
  assumes names: "same_names models grid"
    and len: "length (configured_instances models (combinations models grid)) =
              length (combinations models grid)"
  shows "distinct (configured_instances models (combinations models grid))"
proof -
  let ?combos = "combinations models grid"
  let ?confs = "configured_instances models ?combos"
  have fit: "list_all2 (fits models) ?combos ?confs"
    using len by (intro configured_instances_fit) simp_all
  have dist: "distinct ?combos"
    unfolding combinations_def
  proof (rule distinct_combinations)
    show "distinct (map fst models)" using names by (simp add: same_names_def)
    show "distinct (case map_of grid k of None \<Rightarrow> [] | Some ps \<Rightarrow> ps)"
      if "k \<in> set (map fst models)" for k
      using names that by (auto simp: same_names_def split: option.splits)
  qed
  have vals: "distinct (map snd (classes models))"
    using names by (simp add: same_names_def classes_def comp_def)
  show ?thesis
  proof (rule list_all2_distinct [OF fit dist])
    fix kp kp' c c'
    assume kp: "kp \<in> set ?combos" and kp': "kp' \<in> set ?combos" and ne: "kp \<noteq> kp'"
      and f: "fits models kp c" and f': "fits models kp' c'"
    show "c \<noteq> c'"
    proof (cases "fst kp = fst kp'")
      case False
      have "est_class c \<noteq> est_class c'"
      proof
        assume "est_class c = est_class c'"
        with f f' have "map_of (classes models) (fst kp) = Some (est_class c)"
          "map_of (classes models) (fst kp') = Some (est_class c)"
          by (simp_all add: fits_def)
        from map_of_distinct_values [OF this vals] False show False by simp
      qed
      then show ?thesis by auto
    next
      case True
      from in_combinations [OF kp] obtain km ps where
        km: "km \<in> set models" "fst km = fst kp" and ps: "map_of grid (fst kp) = Some ps"
        and p: "snd kp \<in> set ps"
        by blast
      from in_combinations [OF kp'] True ps have p': "snd kp' \<in> set ps"
        by auto
      from names km(1) have "\<forall>param_list. map_of grid (fst km) = Some param_list \<longrightarrow>
          distinct param_list \<and>
          (\<forall>q\<in>set param_list. distinct (map fst q) \<and> map fst q = map fst (hd param_list))"
        unfolding same_names_def by blast
      then have "map_of grid (fst km) = Some ps \<longrightarrow>
          distinct ps \<and> (\<forall>q\<in>set ps. distinct (map fst q) \<and> map fst q = map fst (hd ps))"
        by (rule spec)
      then have uni: "\<forall>q\<in>set ps. distinct (map fst q) \<and> map fst q = map fst (hd ps)"
        using km(2) ps by (simp only: simp_thms) (erule conjunct2)
      from ne True have "snd kp \<noteq> snd kp'"
        by (auto simp: prod_eq_iff)
      moreover have "map fst (snd kp) = map fst (snd kp')"
        using uni p p' by simp
      ultimately obtain n v w where
        nv: "(n, v) \<in> set (snd kp)" "(n, w) \<in> set (snd kp')" "v \<noteq> w"
        using same_names_differ by blast
      have "map_of (est_params c) n = Some v"
        using f uni p nv(1) by (auto simp: fits_def)
      moreover have "map_of (est_params c') n = Some w"
        using f' uni p' nv(2) by (auto simp: fits_def)
      ultimately show ?thesis using nv(3) by auto
    qed
  qed
qed

text \<open>The grid of the source sets the same parameter names in every entry of a family.\<close>

lemma GRID_same_names:
  assumes "map fst models = [''LinearRegression'', ''Lasso'', ''Ridge'', ''ElasticNet'']"
    and "distinct (map (\<lambda>km. est_class (snd km)) models)"
  shows "same_names models GRID"
proof -
  have keys: "fst km \<in> {''LinearRegression'', ''Lasso'', ''Ridge'', ''ElasticNet''}"
    if "km \<in> set models" for km
  proof -
    from that have "fst km \<in> set (map fst models)" by simp
    then show ?thesis by (simp add: assms(1))
  qed
  have dist: "distinct (map fst models)"
    by (simp add: assms(1))
  have grid: "distinct ps \<and> (\<forall>p\<in>set ps. distinct (map fst p) \<and> map fst p = map fst (hd ps))"
    if "k \<in> {''LinearRegression'', ''Lasso'', ''Ridge'', ''ElasticNet''}"
      and "map_of GRID k = Some ps" for k ps
    using that by (auto simp: GRID_def alphas_def)
  show ?thesis
    unfolding same_names_def using dist assms(2) keys grid by blast
qed

text \<open>
  C3, as the claim states it, fails. With the grid \<open>leaky_grid\<close> the family \<open>Ridge\<close> has
  two different combinations; the second sets only \<open>alpha\<close> and inherits
  \<open>fit_intercept=False\<close> from the first through the shared estimator object, so both
  configure the object alike, whatever the rendering both get one key, and the table
  has two rows for three combinations: the record of the first combination is
  overwritten by the second's.
\<close>

theorem run_grid_search_overwrites:
  "map_sum id (\<lambda>out. map (\<lambda>r. (index_key r, parameters r)) (fst out))
     (run_grid_search demo_lib (NdArray [[1, 2]] :: unit design) [3]
        (NdArray [[1, 5]] :: unit design) [4] 3 1 leaky_grid two_models) =
     Inr [(''Ridge(alpha=1, fit_intercept=False)'', [(''alpha'', PInt 1)]),
          (''Lasso(alpha=10, fit_intercept=True)'', [(''alpha'', PInt 10)])] \<and>
   combinations (registry two_models) leaky_grid =
     [(''Ridge'', [(''alpha'', PInt 1), (''fit_intercept'', PBool False)]),
      (''Ridge'', [(''alpha'', PInt 1)]),
      (''Lasso'', [(''alpha'', PInt 10)])] \<and>
   configured_instances (registry two_models) (combinations (registry two_models) leaky_grid) =
     [\<lparr>est_class = ''Ridge'', est_params = [(''alpha'', PInt 1), (''fit_intercept'', PBool False)]\<rparr>,
      \<lparr>est_class = ''Ridge'', est_params = [(''alpha'', PInt 1), (''fit_intercept'', PBool False)]\<rparr>,
      \<lparr>est_class = ''Lasso'', est_params = [(''alpha'', PInt 10), (''fit_intercept'', PBool True)]\<rparr>]"
  by (simp add: demo_simps leaky_grid_def combinations_def)

text \<open>
  C3 (amended): when \<^verbatim>\<open>run_grid_search\<close> returns, every combination of the registry and
  the grid has been configured and trained, in order; the rows of the table are keyed
  by the renderings of the shared estimator objects as configured for the combinations,
  one row per distinct rendering in the order of first occurrence, each annotated with
  the test week and the degree; the table has exactly one row per combination if and
  only if the renderings are pairwise different, and then each row holds the key and
  the hyperparameters of its combination. The renderings are pairwise different when
  the rendering tells the configured objects apart, the registry holds every family and
  every class once, and the grid entries of each family are pairwise different and set
  the same parameter names.
\<close>

theorem run_grid_search_rows:
  assumes run: "run_grid_search lib X_train y_train X_test y_test wk deg grid st = Inr (rows, st')"
  shows "let combos = combinations (registry st) grid;
             confs = configured_instances (registry st) combos;
             keys = map (str_model lib) confs
         in length confs = length combos \<and>
            map index_key rows = first_occurrences keys \<and>
            (\<forall>r \<in> set rows. test_week_col r = wk \<and> degree r = deg) \<and>
            (length rows = length combos) = distinct keys \<and>
            (distinct keys \<longrightarrow>
               map (\<lambda>r. (index_key r, parameters r)) rows =
                 map (\<lambda>ck. (str_model lib (fst ck), snd (snd ck))) (zip confs combos)) \<and>
            (same_names (registry st) grid \<and> inj_on (str_model lib) (set confs) \<longrightarrow>
               distinct keys)"
proof -
  let ?combos = "combinations (registry st) grid"
  let ?confs = "configured_instances (registry st) ?combos"
  let ?keys = "map (str_model lib) ?confs"
  let ?loop = "for_each
          (\<lambda>model_key sp.
             case map_of grid model_key of
               None \<Rightarrow> Inl (KeyError model_key)
             | Some param_list \<Rightarrow>
                 for_each (build_classifier lib X_train y_train X_test y_test model_key)
                   param_list sp)
          (map fst (registry st)) (st, [])"
  obtain mp where loop: "?loop = Inr (st', mp)"
    and rows: "rows = map (\<lambda>kp. \<lparr>mse = mse (snd kp), mae = mae (snd kp), rss = rss (snd kp),
                           run_time = run_time (snd kp), parameters = parameters (snd kp),
                           model_type = model_type (snd kp),
                           test_week_col = wk, degree = deg, index_key = fst kp\<rparr>) mp"
  proof (cases ?loop)
    case (Inl e)
    with run show ?thesis by (simp add: run_grid_search_def bind_err_def)
  next
    case (Inr out)
    obtain s1 mp1 where out: "out = (s1, mp1)" by (cases out) auto
    from run Inr out that show ?thesis
      by (simp add: run_grid_search_def bind_err_def)
  qed
  have flat: "for_each (\<lambda>kp. build_classifier lib X_train y_train X_test y_test (fst kp) (snd kp))
                ?combos (st, []) = Inr (st', mp)"
    using grid_loop_flat [OF loop] by (simp add: combinations_def)
  from flat_loop_rows [OF flat] have
    len: "length ?confs = length ?combos" and
    keys: "map fst mp = first_occurrences ?keys" and
    pairs: "distinct ?keys \<longrightarrow>
            map (\<lambda>kp. (fst kp, parameters (snd kp))) mp =
              map (\<lambda>ck. (str_model lib (fst ck), snd (snd ck))) (zip ?confs ?combos)"
    by simp_all
  have k: "map index_key rows = first_occurrences ?keys"
    using keys by (simp add: rows comp_def)
  have "length rows = length (map fst mp)"
    by (simp add: rows)
  then have "length rows = length (first_occurrences ?keys)"
    by (simp only: keys)
  then have cnt: "(length rows = length ?combos) = distinct ?keys"
    using length_first_occurrences [of ?keys] len by simp
  have tagged: "\<forall>r \<in> set rows. test_week_col r = wk \<and> degree r = deg"
    by (auto simp: rows)
  have pr: "distinct ?keys \<longrightarrow>
               map (\<lambda>r. (index_key r, parameters r)) rows =
                 map (\<lambda>ck. (str_model lib (fst ck), snd (snd ck))) (zip ?confs ?combos)"
    using pairs by (simp add: rows comp_def)
  have uniq: "same_names (registry st) grid \<and> inj_on (str_model lib) (set ?confs) \<longrightarrow>
               distinct ?keys"
    using same_names_distinct [OF _ len] by (auto simp: distinct_map)
  show ?thesis
    unfolding Let_def by (intro conjI len k tagged cnt pr uniq)
qed

theorem run_grid_search_rows_witness:
  "run_grid_search demo_lib (NdArray [[1, 2]] :: unit design) [3]
        (NdArray [[1, 5]] :: unit design) [4] 3 1 small_grid two_models =
     Inr ([\<lparr>mse = 16, mae = 4, rss = 16, run_time = 1, parameters = [(''alpha'', PInt 1)],
            model_type = ''Ridge(alpha=1, fit_intercept=True)'', test_week_col = 3, degree = 1,
            index_key = ''Ridge(alpha=1, fit_intercept=True)''\<rparr>,
           \<lparr>mse = 16, mae = 4, rss = 16, run_time = 1, parameters = [(''alpha'', PInt 10)],
            model_type = ''Ridge(alpha=10, fit_intercept=True)'', test_week_col = 3, degree = 1,
            index_key = ''Ridge(alpha=10, fit_intercept=True)''\<rparr>,
           \<lparr>mse = 16, mae = 4, rss = 16, run_time = 1, parameters = [(''alpha'', PInt 10)],
            model_type = ''Lasso(alpha=10, fit_intercept=True)'', test_week_col = 3, degree = 1,
            index_key = ''Lasso(alpha=10, fit_intercept=True)''\<rparr>],
          \<lparr>registry =
             [(''Ridge'', \<lparr>est_class = ''Ridge'',
                 est_params = [(''alpha'', PInt 10), (''fit_intercept'', PBool True)]\<rparr>),
              (''Lasso'', \<lparr>est_class = ''Lasso'',
                 est_params = [(''alpha'', PInt 10), (''fit_intercept'', PBool True)]\<rparr>)],
            ticks = 6\<rparr>) \<and>
   same_names (registry two_models) small_grid \<and>
   distinct (map (str_model demo_lib)
     (configured_instances (registry two_models) (combinations (registry two_models) small_grid))) \<and>
   length (combinations (registry two_models) small_grid) = 3"
proof -
  let ?rows = "[\<lparr>mse = 16, mae = 4, rss = 16, run_time = 1, parameters = [(''alpha'', PInt 1)],
            model_type = ''Ridge(alpha=1, fit_intercept=True)'', test_week_col = 3, degree = 1,
            index_key = ''Ridge(alpha=1, fit_intercept=True)''\<rparr>,
           \<lparr>mse = 16, mae = 4, rss = 16, run_time = 1, parameters = [(''alpha'', PInt 10)],
            model_type = ''Ridge(alpha=10, fit_intercept=True)'', test_week_col = 3, degree = 1,
            index_key = ''Ridge(alpha=10, fit_intercept=True)''\<rparr>,
           \<lparr>mse = 16, mae = 4, rss = 16, run_time = 1, parameters = [(''alpha'', PInt 10)],
            model_type = ''Lasso(alpha=10, fit_intercept=True)'', test_week_col = 3, degree = 1,
            index_key = ''Lasso(alpha=10, fit_intercept=True)''\<rparr>]"
  let ?st = "\<lparr>registry =
             [(''Ridge'', \<lparr>est_class = ''Ridge'',
                 est_params = [(''alpha'', PInt 10), (''fit_intercept'', PBool True)]\<rparr>),
              (''Lasso'', \<lparr>est_class = ''Lasso'',
                 est_params = [(''alpha'', PInt 10), (''fit_intercept'', PBool True)]\<rparr>)],
            ticks = 6\<rparr>"
  have run: "run_grid_search demo_lib (NdArray [[1, 2]] :: unit design) [3]
        (NdArray [[1, 5]] :: unit design) [4] 3 1 small_grid two_models = Inr (?rows, ?st)"
    by (simp add: demo_simps small_grid_def)
       (simp_all add: binary64_eval)
  have names: "same_names (registry two_models) small_grid"
    by (simp add: same_names_def two_models_def small_grid_def)
  have confs: "configured_instances (registry two_models)
       (combinations (registry two_models) small_grid) =
     [\<lparr>est_class = ''Ridge'', est_params = [(''alpha'', PInt 1), (''fit_intercept'', PBool True)]\<rparr>,
      \<lparr>est_class = ''Ridge'', est_params = [(''alpha'', PInt 10), (''fit_intercept'', PBool True)]\<rparr>,
      \<lparr>est_class = ''Lasso'', est_params = [(''alpha'', PInt 10), (''fit_intercept'', PBool True)]\<rparr>]"
    by (simp add: two_models_def small_grid_def combinations_def)
  have inj: "inj_on (str_model demo_lib) (set (configured_instances (registry two_models)
       (combinations (registry two_models) small_grid)))"
    unfolding confs by (simp add: demo_lib_def demo_str_model_def str_int_def digit_char_def)
  from run_grid_search_rows [OF run] names inj
  have "distinct (map (str_model demo_lib)
     (configured_instances (registry two_models) (combinations (registry two_models) small_grid)))"
    and "length ?rows = length (combinations (registry two_models) small_grid)"
    unfolding Let_def by blast+
  with run names show ?thesis by simp
qed

subsection \<open>Polynomial expansion of the test data\<close>

lemma loc_cols_width: "loc_cols cs df = Inr m \<Longrightarrow> r \<in> set m \<Longrightarrow> length r = length cs"
proof (induction df arbitrary: m)
  case Nil
  then show ?case by simp
next
  case (Cons d df)
  have sel: "select_row cs' d = Inr v \<Longrightarrow> length v = length cs'" for cs' v
    by (induction cs' arbitrary: v) (auto simp: bind_err_def split: option.splits sum.splits)
  from Cons.prems(1) obtain v vs where
    "select_row cs d = Inr v" "loc_cols cs df = Inr vs" "m = v # vs"
    by (auto simp: bind_err_def split: sum.splits)
  with Cons.IH [of vs] Cons.prems(2) sel show ?case by auto
qed

text \<open>
  C2, as the claim states it, fails: \<^verbatim>\<open>poly.fit_transform(test[features])\<close> at line 275 fits
  the expander again. For the fold with weeks 2 and 3 for training and week 4 for testing,
  at degree 2, the expander object ends fitted on the feature rows of the test week, not
  on those of the training weeks.
\<close>

theorem expand_fold_fitted_on_test:
  "map_sum id (\<lambda>out. (fst (snd (snd out)), fitted_on (snd (snd (snd (snd out))))))
     (expand_fold 2 [''lag_prisoner_cases'', ''new_prisoner_cases''] ''total_prisoner_cases''
        [wk_row 2 6 1, wk_row 3 7 1] [wk_row 4 9 2]) =
     Inr ([[1, 0, 2, 0, 0, 4]], Some [[0, 2]]) \<and>
   loc_cols [''lag_prisoner_cases'', ''new_prisoner_cases''] [wk_row 2 6 1, wk_row 3 7 1] =
     Inr [[0, 1], [0, 1]] \<and>
   loc_cols [''lag_prisoner_cases'', ''new_prisoner_cases''] [wk_row 4 9 2] = Inr [[0, 2]]"
  by (simp add: expand_fold_def fit_transform_def poly_fit_def poly_transform_def
      PolynomialFeatures_def expand_row_def column_def get_col_def wk_row_def bind_err_def
      upt_rec numeral_2_eq_2 numeral_3_eq_3)

text \<open>
  C2 (amended): whenever lines 272 to 276 build the design matrices of a fold at a degree,
  the test design matrix is the one that the expansion fitted on the fold's training
  features yields on the test features; the code computes it with \<^verbatim>\<open>fit_transform\<close> on the
  test features, so the expander object ends fitted on the test features. The fit keeps
  only the number of columns, which is why the two agree.
\<close>

theorem expand_fold_refits_on_test:
  assumes "expand_fold deg features target train_df test_df =
             Inr (X_train, y_train, X_test, y_test, poly)"
  shows "\<exists>train_sel test_sel fitted.
           loc_cols features train_df = Inr train_sel \<and>
           loc_cols features test_df = Inr test_sel \<and>
           poly_fit (PolynomialFeatures deg) train_sel = Inr fitted \<and>
           fitted_on fitted = Some train_sel \<and>
           poly_transform fitted test_sel = Inr X_test \<and>
           fitted_on poly = Some test_sel"
proof -
  from assms obtain train_sel poly1 test_sel where
    tr: "loc_cols features train_df = Inr train_sel" and
    ft1: "fit_transform (PolynomialFeatures deg) train_sel = Inr (poly1, X_train)" and
    te: "loc_cols features test_df = Inr test_sel" and
    ft2: "fit_transform poly1 test_sel = Inr (poly, X_test)"
    by (auto simp: expand_fold_def bind_err_def Let_def split: sum.splits prod.splits)
  from ft1 obtain r0 rs where
    tr_rows: "train_sel = r0 # rs" and r0: "r0 \<noteq> []" and
    fit1: "poly_fit (PolynomialFeatures deg) train_sel = Inr poly1" and
    poly1: "poly1 = (PolynomialFeatures deg)\<lparr>n_input_features := Some (length r0),
                                              fitted_on := Some train_sel\<rparr>"
    by (auto simp: fit_transform_def poly_fit_def bind_err_def split: list.splits if_splits sum.splits)
  from ft2 obtain t0 ts where
    te_rows: "test_sel = t0 # ts" and
    poly2: "poly = poly1\<lparr>n_input_features := Some (length t0), fitted_on := Some test_sel\<rparr>" and
    out: "poly_transform poly test_sel = Inr X_test"
    by (auto simp: fit_transform_def poly_fit_def bind_err_def split: list.splits if_splits sum.splits)
  have w1: "length r0 = length features"
    using loc_cols_width [OF tr] tr_rows by simp
  have w2: "length t0 = length features"
    using loc_cols_width [OF te] te_rows by simp
  have "poly_transform poly1 test_sel = poly_transform poly test_sel"
    by (simp add: poly_transform_def poly1 poly2 w1 w2 PolynomialFeatures_def)
  with out have "poly_transform poly1 test_sel = Inr X_test" by simp
  moreover have "fitted_on poly1 = Some train_sel" by (simp add: poly1)
  moreover have "fitted_on poly = Some test_sel" by (simp add: poly2)
  ultimately show ?thesis
    using tr te fit1 by blast
qed

theorem expand_fold_refits_on_test_witness:
  "expand_fold 1 [''lag_prisoner_cases'', ''new_prisoner_cases''] ''total_prisoner_cases''
     [wk_row 2 6 1] [wk_row 3 7 3] =
     Inr ([[1, 0, 1]], [6], [[1, 0, 3]], [7],
          \<lparr>poly_degree = 1, n_input_features = Some 2, fitted_on = Some [[0, 3]]\<rparr>) \<and>
   poly_fit (PolynomialFeatures 1) [[0, 1]] =
     Inr \<lparr>poly_degree = 1, n_input_features = Some 2, fitted_on = Some [[0, 1]]\<rparr> \<and>
   poly_transform \<lparr>poly_degree = 1, n_input_features = Some 2, fitted_on = Some [[0, 1]]\<rparr>
     [[0, 3]] = Inr [[1, 0, 3]]"
proof -
  have run: "expand_fold 1 [''lag_prisoner_cases'', ''new_prisoner_cases''] ''total_prisoner_cases''
     [wk_row 2 6 1] [wk_row 3 7 3] =
     Inr ([[1, 0, 1]], [6], [[1, 0, 3]], [7],
          \<lparr>poly_degree = 1, n_input_features = Some 2, fitted_on = Some [[0, 3]]\<rparr>)"
    by (simp add: expand_fold_def fit_transform_def poly_fit_def poly_transform_def
        PolynomialFeatures_def expand_row_def column_def get_col_def wk_row_def bind_err_def
        upt_rec numeral_2_eq_2)
  have sel: "loc_cols [''lag_prisoner_cases'', ''new_prisoner_cases''] [wk_row 2 6 1] =
               Inr [[0, 1]]"
    "loc_cols [''lag_prisoner_cases'', ''new_prisoner_cases''] [wk_row 3 7 3] = Inr [[0, 3]]"
    by (simp_all add: get_col_def wk_row_def bind_err_def)
  from expand_fold_refits_on_test [OF run] obtain fitted where
    "poly_fit (PolynomialFeatures 1) [[0, 1]] = Inr fitted"
    "poly_transform fitted [[0, 3]] = Inr [[1, 0, 3]]"
    unfolding sel by auto
  then have "poly_transform \<lparr>poly_degree = 1, n_input_features = Some 2,
      fitted_on = Some [[0, 1]]\<rparr> [[0, 3]] = Inr [[1, 0, 3]]"
    by (auto simp add: poly_fit_def PolynomialFeatures_def numeral_2_eq_2)
  then show ?thesis
    using run by (simp add: poly_fit_def PolynomialFeatures_def)
qed

end
